theory Spec2Isabelle
  imports Main "HOL-Library.Sublist"
begin

section \<open>Strings of the platform\<close>

text \<open>
  A string is a list of code units. The model keeps the code units U+0000..U+00FF
  (one \<open>char\<close> each, read as Latin-1), which cover every literal of the sources
  (\<open>CHR 0xED\<close> is the i with acute accent of the Portuguese words); the letter case
  pairs are those of that range: A-Z and U+00C0..U+00DE without the multiplication sign
  U+00D7.
\<close>

definition lower_char :: "char \<Rightarrow> char" where
  "lower_char c =
     (let n = (of_char c :: nat)
      in if (65 \<le> n \<and> n \<le> 90) \<or> (192 \<le> n \<and> n \<le> 222 \<and> n \<noteq> 215)
         then char_of (n + 32) else c)"

definition upper_char :: "char \<Rightarrow> char" where
  "upper_char c =
     (let n = (of_char c :: nat)
      in if (97 \<le> n \<and> n \<le> 122) \<or> (224 \<le> n \<and> n \<le> 254 \<and> n \<noteq> 247)
         then char_of (n - 32) else c)"

text \<open>\<open>s.toLowerCase()\<close>\<close>

definition toLowerCase :: "string \<Rightarrow> string" where
  "toLowerCase s = map lower_char s"

text \<open>\<open>s.startsWith(p)\<close> is \<^const>\<open>prefix\<close> \<open>p s\<close>; \<open>s.includes(w)\<close>:\<close>

fun js_includes :: "string \<Rightarrow> string \<Rightarrow> bool" where
  "js_includes [] w = (w = [])"
| "js_includes (c # cs) w = (prefix w (c # cs) \<or> js_includes cs w)"

text \<open>
  \<open>s.split(sep)\<close> for a separator that is not empty: the pieces between the
  occurrences of \<open>sep\<close>, found from left to right without overlap.
\<close>

fun js_split_from :: "string \<Rightarrow> string \<Rightarrow> string \<Rightarrow> string list" where
  "js_split_from sep acc s =
     (if s = [] then [acc]
      else if sep \<noteq> [] \<and> prefix sep s then acc # js_split_from sep [] (drop (length sep) s)
      else js_split_from sep (acc @ [hd s]) (tl s))"

declare js_split_from.simps [simp del]

definition js_split :: "string \<Rightarrow> string \<Rightarrow> string list" where
  "js_split s sep = js_split_from sep [] s"

text \<open>\<open>xs[i]\<close> is \<open>undefined\<close> out of range, \<open>xs.pop()\<close> on an empty array too.\<close>

definition js_index :: "'a list \<Rightarrow> nat \<Rightarrow> 'a option" where
  "js_index xs i = (if i < length xs then Some (xs ! i) else None)"

definition js_pop :: "'a list \<Rightarrow> 'a option" where
  "js_pop xs = (case xs of [] \<Rightarrow> None | _ # _ \<Rightarrow> Some (last xs))"

text \<open>
  What a \<open>catch\<close> receives: a \<open>TypeError\<close> of the platform (a method called on
  \<open>undefined\<close> or \<open>null\<close>), an \<open>Error\<close> made by the code with its message, or the
  rejection of a \<open>fetch\<close>.
\<close>

datatype js_error = TypeError | Error string | FetchRejected

text \<open>\<open>s.trim()\<close> removes white space and line terminators at both ends.\<close>

definition is_space :: "char \<Rightarrow> bool" where
  "is_space c = ((of_char c :: nat) \<in> set [9, 10, 11, 12, 13, 32, 160])"

definition js_trim :: "string \<Rightarrow> string" where
  "js_trim s = rev (dropWhile is_space (rev (dropWhile is_space s)))"

section \<open>Regular expressions\<close>

text \<open>
  The regular expressions of the sources are built from single characters, character
  classes, literal text, alternatives, one level of groups and quantifiers applied to a
  single character or class. \<open>rx_match\<close> is a backtracking matcher that returns every
  way to match at the start of the input, in the order in which the platform tries them
  (the first alternative first, a greedy quantifier longest first, a lazy one shortest
  first), each with the rest of the input and the captured groups; the first of them
  is the match the platform reports. The flag \<open>ci\<close> is the \<open>i\<close> flag.
\<close>

definition is_line_terminator :: "char \<Rightarrow> bool" where
  "is_line_terminator c = ((of_char c :: nat) \<in> set [10, 13])"

definition is_digit :: "char \<Rightarrow> bool" where
  "is_digit c = (48 \<le> (of_char c :: nat) \<and> (of_char c :: nat) \<le> 57)"

definition in_range :: "char \<Rightarrow> char \<Rightarrow> char \<Rightarrow> bool" where
  "in_range lo hi c = ((of_char lo :: nat) \<le> of_char c \<and> (of_char c :: nat) \<le> of_char hi)"

definition canon :: "bool \<Rightarrow> char \<Rightarrow> char" where
  "canon ci c = (if ci then upper_char c else c)"

datatype cc = COne char | CRange char char | CSpace | CDigit

datatype atom = AChr char | AAny | ASet "cc list" | ANotSet "cc list"

fun cc_has :: "bool \<Rightarrow> cc \<Rightarrow> char \<Rightarrow> bool" where
  "cc_has ci (COne x) c = (canon ci x = canon ci c)"
| "cc_has ci (CRange lo hi) c =
     (in_range lo hi c \<or> (ci \<and> (in_range lo hi (upper_char c) \<or> in_range lo hi (lower_char c))))"
| "cc_has ci CSpace c = is_space c"
| "cc_has ci CDigit c = is_digit c"

fun atom_match :: "bool \<Rightarrow> atom \<Rightarrow> char \<Rightarrow> bool" where
  "atom_match ci (AChr x) c = (canon ci x = canon ci c)"
| "atom_match ci AAny c = (\<not> is_line_terminator c)"
| "atom_match ci (ASet items) c = list_ex (\<lambda>i. cc_has ci i c) items"
| "atom_match ci (ANotSet items) c = (\<not> list_ex (\<lambda>i. cc_has ci i c) items)"

text \<open>\<open>Rep greedy a lo hi\<close> is the atom \<open>a\<close> repeated \<open>lo\<close> to \<open>hi\<close> times (\<open>None\<close>: no
  upper bound); \<open>Grp n r\<close> is the capturing group number \<open>n\<close>.\<close>

datatype rx = Atom atom | Str string | Rep bool atom nat "nat option"
  | Seq rx rx | Alt rx rx | Grp nat rx

type_synonym captures = "(nat \<times> string) list"

fun str_rest :: "bool \<Rightarrow> string \<Rightarrow> string \<Rightarrow> string option" where
  "str_rest ci [] s = Some s"
| "str_rest ci (x # xs) [] = None"
| "str_rest ci (x # xs) (c # cs) = (if canon ci x = canon ci c then str_rest ci xs cs else None)"

text \<open>The rests of \<open>s\<close> after 0, 1, 2, ... leading characters that satisfy \<open>p\<close>, at most
  \<open>n\<close> of them.\<close>

fun rep_rests :: "(char \<Rightarrow> bool) \<Rightarrow> nat \<Rightarrow> string \<Rightarrow> string list" where
  "rep_rests p 0 s = [s]"
| "rep_rests p (Suc n) [] = [[]]"
| "rep_rests p (Suc n) (c # cs) = (c # cs) # (if p c then rep_rests p n cs else [])"

fun rx_match :: "bool \<Rightarrow> rx \<Rightarrow> string \<times> captures \<Rightarrow> (string \<times> captures) list" where
  "rx_match ci (Atom a) (s, g) =
     (case s of [] \<Rightarrow> [] | c # cs \<Rightarrow> if atom_match ci a c then [(cs, g)] else [])"
| "rx_match ci (Str w) (s, g) =
     (case str_rest ci w s of None \<Rightarrow> [] | Some r \<Rightarrow> [(r, g)])"
| "rx_match ci (Rep greedy a lo hi) (s, g) =
     (let rests = drop lo (rep_rests (atom_match ci a)
                            (case hi of None \<Rightarrow> length s | Some h \<Rightarrow> h) s)
      in map (\<lambda>r. (r, g)) (if greedy then rev rests else rests))"
| "rx_match ci (Seq r1 r2) st = concat (map (rx_match ci r2) (rx_match ci r1 st))"
| "rx_match ci (Alt r1 r2) st = rx_match ci r1 st @ rx_match ci r2 st"
| "rx_match ci (Grp n r) (s, g) =
     map (\<lambda>(s', g'). (s', (n, take (length s - length s') s) # g')) (rx_match ci r (s, g))"

text \<open>A pattern that begins with \<open>^\<close> is matched at the start of the input only
  (\<open>rx_at\<close>); any other is searched from left to right (\<open>rx_search\<close>).\<close>

definition rx_at :: "bool \<Rightarrow> rx \<Rightarrow> string \<Rightarrow> captures option" where
  "rx_at ci r s = (case rx_match ci r (s, []) of [] \<Rightarrow> None | (_, g) # _ \<Rightarrow> Some g)"

fun rx_search :: "bool \<Rightarrow> rx \<Rightarrow> string \<Rightarrow> captures option" where
  "rx_search ci r [] = rx_at ci r []"
| "rx_search ci r (c # cs) =
     (case rx_at ci r (c # cs) of Some g \<Rightarrow> Some g | None \<Rightarrow> rx_search ci r cs)"

text \<open>\<open>match[n]\<close> of a match array: \<open>undefined\<close> when the group took no part.\<close>

definition capture :: "captures \<Rightarrow> nat \<Rightarrow> string option" where
  "capture g n = map_of g n"

fun seqs :: "rx list \<Rightarrow> rx" where
  "seqs [] = Str []"
| "seqs [r] = r"
| "seqs (r # rs) = Seq r (seqs rs)"

fun strs :: "string list \<Rightarrow> rx" where
  "strs [] = Atom (ASet [])"
| "strs [w] = Str w"
| "strs (w # ws) = Alt (Str w) (strs ws)"

definition letter :: atom where
  "letter = ASet [CRange (CHR ''a'') (CHR ''z''), CRange (CHR ''A'') (CHR ''Z'')]"

text \<open>\<open>binds n r\<close>: every match of \<open>r\<close> sets the group \<open>n\<close>.\<close>

fun binds :: "nat \<Rightarrow> rx \<Rightarrow> bool" where
  "binds n (Grp m r) = (n = m \<or> binds n r)"
| "binds n (Seq a b) = (binds n a \<or> binds n b)"
| "binds n (Alt a b) = (binds n a \<and> binds n b)"
| "binds n (Atom a) = False"
| "binds n (Str w) = False"
| "binds n (Rep gr a lo hi) = False"


section \<open>mediaUtils.ts\<close>

text \<open>\<open>process.env.NEXT_PUBLIC_API_URL || 'http://localhost:8000'\<close>: the variable is
  an input (\<open>None\<close> when it is not set), and the empty string is falsy.\<close>

definition apiUrl :: "string option \<Rightarrow> string" where
  "apiUrl env =
     (case env of None \<Rightarrow> ''http://localhost:8000''
      | Some u \<Rightarrow> if u = [] then ''http://localhost:8000'' else u)"

definition mediaDirs :: "string list" where
  "mediaDirs = [''text/'', ''audio/'', ''videos/'', ''images/'', ''transcripts/'']"

definition video_exts :: "string list" where
  "video_exts = [''mp4'', ''avi'', ''mov'', ''mkv'', ''webm'']"

definition audio_exts :: "string list" where
  "audio_exts = [''mp3'', ''wav'', ''ogg'', ''aac'', ''m4a'']"

definition image_exts :: "string list" where
  "image_exts = [''jpg'', ''jpeg'', ''png'', ''gif'', ''svg'', ''webp'']"

text \<open>\<open>p.toLowerCase().split('.').pop() || ''\<close>\<close>

definition extension :: "string \<Rightarrow> string" where
  "extension p = (case js_pop (js_split (toLowerCase p) ''.'') of None \<Rightarrow> [] | Some e \<Rightarrow> e)"

text \<open>
  The path after the root marker is cut off and the leading slashes are removed
  (lines 19 to 32 of \<open>validateMediaUrl\<close>). \<open>cleanPath.split('/processed_data/')[1]\<close>
  is read with \<^const>\<open>js_index\<close>: were it \<open>undefined\<close>, the \<open>replace\<close> that follows
  would throw.
\<close>

definition stripRoot :: "string \<Rightarrow> js_error + string" where
  "stripRoot url =
     (case (if js_includes url ''/processed_data/''
            then js_index (js_split url ''/processed_data/'') 1 else Some url) of
        None \<Rightarrow> Inl TypeError
      | Some p \<Rightarrow> Inr (dropWhile (\<lambda>c. c = CHR ''/'') p))"

definition hasMediaDir :: "string \<Rightarrow> bool" where
  "hasMediaDir cleanPath = list_ex (\<lambda>dir. prefix dir cleanPath) mediaDirs"

text \<open>The subdirectory inferred from the extension (lines 39 to 58); both branches
  of the test on the exercise spellings give \<open>text/\<close>.\<close>

definition inferDir :: "string \<Rightarrow> string" where
  "inferDir cleanPath =
     (let ext = extension cleanPath
      in if ext \<in> set video_exts then ''videos/'' @ cleanPath
         else if ext \<in> set audio_exts then ''audio/'' @ cleanPath
         else if ext \<in> set image_exts then ''images/'' @ cleanPath
         else if ext \<in> set [''txt'', ''md'', ''pdf''] then
           (if js_includes (toLowerCase cleanPath) (''exerc'' @ [CHR 0xED] @ ''cio'')
               \<or> js_includes (toLowerCase cleanPath) ''exercicio''
               \<or> js_includes (toLowerCase cleanPath) ''exercise''
            then ''text/'' @ cleanPath else ''text/'' @ cleanPath)
         else cleanPath)"

definition validateMediaUrl :: "string option \<Rightarrow> string \<Rightarrow> js_error + string" where
  "validateMediaUrl env url =
     (if url = [] then Inr []
      else if prefix ''http://'' url \<or> prefix ''https://'' url then Inr url
      else if prefix ''/processed_data/'' url then Inr (apiUrl env @ url)
      else case stripRoot url of
             Inl e \<Rightarrow> Inl e
           | Inr cleanPath \<Rightarrow>
               Inr (apiUrl env @ ''/processed_data/''
                    @ (if hasMediaDir cleanPath then cleanPath else inferDir cleanPath)))"

datatype file_type = Video | Audio | Image | Markdown | Exercises | Unknown

definition getFileType :: "string \<Rightarrow> file_type" where
  "getFileType filePath =
     (if filePath = [] then Unknown
      else let ext = extension filePath; path = toLowerCase filePath
        in if ext \<in> set video_exts \<or> js_includes path ''/videos/'' then Video
           else if ext \<in> set audio_exts \<or> js_includes path ''/audio/'' then Audio
           else if ext \<in> set image_exts \<or> js_includes path ''/images/'' then Image
           else if ext \<in> set [''json'']
                   \<or> js_includes path (''exerc'' @ [CHR 0xED] @ ''cios'')
                   \<or> js_includes path ''exercicios'' then Exercises
           else if ext \<in> set [''md'', ''txt'', ''pdf''] \<or> js_includes path ''/text/'' then Markdown
           else Unknown)"

section \<open>ExerciseContent.tsx: the plain-text parser\<close>

record Exercise =
  question :: string
  options :: "string list option"
  answer :: "string option"
  explanation :: "string option"

text \<open>\<^verbatim>\<open>/^(\d+)[.)](.+)/\<close>\<close>

definition rx_question :: rx where
  "rx_question =
     seqs [Grp 1 (Rep True (ASet [CDigit]) 1 None),
           Atom (ASet [COne (CHR ''.''), COne (CHR '')'')]),
           Grp 2 (Rep True AAny 1 None)]"

text \<open>\<^verbatim>\<open>/^[a-zA-Z][).] (.+)/\<close>\<close>

definition rx_option :: rx where
  "rx_option =
     seqs [Atom letter, Atom (ASet [COne (CHR '')''), COne (CHR ''.'')]), Str '' '',
           Grp 1 (Rep True AAny 1 None)]"

text \<open>\<^verbatim>\<open>/^(Resposta|Answer|Gabarito):\s*(.+)/i\<close>\<close>

definition rx_answer :: rx where
  "rx_answer =
     seqs [Grp 1 (strs [''Resposta'', ''Answer'', ''Gabarito'']), Str '':'',
           Rep True (ASet [CSpace]) 0 None, Grp 2 (Rep True AAny 1 None)]"

text \<open>\<^verbatim>\<open>/^(Explica\c{c}\~ao|Explanation):\s*(.+)/i\<close>, the c-cedilla and the a-tilde being
  U+00E7 and U+00E3.\<close>

definition rx_explanation :: rx where
  "rx_explanation =
     seqs [Grp 1 (strs [''Explica'' @ [CHR 0xE7, CHR 0xE3] @ ''o'', ''Explanation'']), Str '':'',
           Rep True (ASet [CSpace]) 0 None, Grp 2 (Rep True AAny 1 None)]"

text \<open>The variables of the loop of \<open>parseTextExercises\<close>.\<close>

record parse_state =
  exercises :: "Exercise list"
  currentExercise :: "Exercise option"
  collectingOptions :: bool
  currentOptions :: "string list"

text \<open>
  Lines 117 to 124: the exercise in progress is saved when its question is not empty;
  the collected options are attached and reset only then.
\<close>

definition push_current :: "parse_state \<Rightarrow> parse_state" where
  "push_current st =
     (case currentExercise st of
        None \<Rightarrow> st
      | Some e \<Rightarrow>
          if question e = [] then st
          else if collectingOptions st
          then st\<lparr>exercises := exercises st @ [e\<lparr>options := Some (currentOptions st)\<rparr>],
                  collectingOptions := False, currentOptions := []\<rparr>
          else st\<lparr>exercises := exercises st @ [e]\<rparr>)"

text \<open>
  The body of the loop, for one line. \<open>m[n].trim()\<close> throws when the group is
  \<open>undefined\<close>, hence the \<open>TypeError\<close> branches.
\<close>

definition parse_step :: "parse_state \<Rightarrow> string \<Rightarrow> js_error + parse_state" where
  "parse_step st raw =
     (let line = js_trim raw in
      if line = [] then Inr st
      else case rx_at False rx_question line of
        Some g \<Rightarrow>
          (case capture g 2 of
             None \<Rightarrow> Inl TypeError
           | Some q \<Rightarrow>
               Inr ((push_current st)
                     \<lparr>currentExercise :=
                        Some \<lparr>question = js_trim q, options = None, answer = None,
                              explanation = None\<rparr>\<rparr>))
      | None \<Rightarrow>
          (case currentExercise st of
             None \<Rightarrow> Inr st
           | Some e \<Rightarrow>
               (case rx_at False rx_option line of
                  Some g \<Rightarrow>
                    (case capture g 1 of
                       None \<Rightarrow> Inl TypeError
                     | Some opt \<Rightarrow>
                         Inr (st\<lparr>collectingOptions := True,
                                 currentOptions :=
                                   (if collectingOptions st then currentOptions st else [])
                                   @ [js_trim opt]\<rparr>))
                | None \<Rightarrow>
                    (case rx_at True rx_answer line of
                       Some g \<Rightarrow>
                         (case capture g 2 of
                            None \<Rightarrow> Inl TypeError
                          | Some a \<Rightarrow>
                              Inr (st\<lparr>currentExercise := Some (e\<lparr>answer := Some (js_trim a)\<rparr>)\<rparr>))
                     | None \<Rightarrow>
                         (case rx_at True rx_explanation line of
                            Some g \<Rightarrow>
                              (case capture g 2 of
                                 None \<Rightarrow> Inl TypeError
                               | Some x \<Rightarrow>
                                   Inr (st\<lparr>currentExercise :=
                                            Some (e\<lparr>explanation := Some (js_trim x)\<rparr>)\<rparr>))
                          | None \<Rightarrow>
                              if collectingOptions st then Inr st
                              else Inr (st\<lparr>currentExercise :=
                                            Some (e\<lparr>question := question e @ '' '' @ line\<rparr>)\<rparr>))))))"

fun parse_lines :: "parse_state \<Rightarrow> string list \<Rightarrow> js_error + parse_state" where
  "parse_lines st [] = Inr st"
| "parse_lines st (l # ls) =
     (case parse_step st l of Inl e \<Rightarrow> Inl e | Inr st' \<Rightarrow> parse_lines st' ls)"

definition parse_init :: parse_state where
  "parse_init = \<lparr>exercises = [], currentExercise = None, collectingOptions = False,
                  currentOptions = []\<rparr>"

text \<open>Lines 169 to 176: the last exercise is saved in the same way and the list returned.\<close>

definition parseTextExercises :: "string \<Rightarrow> js_error + Exercise list" where
  "parseTextExercises text =
     (case parse_lines parse_init (js_split text [CHR 0x0A]) of
        Inl e \<Rightarrow> Inl e
      | Inr st \<Rightarrow> Inr (exercises (push_current st)))"

text \<open>
  The numbered question lines of a text, in source order, each by its question text:
  what the first pattern of the loop captures on the line.
\<close>

definition question_of_line :: "string \<Rightarrow> string option" where
  "question_of_line raw =
     (let line = js_trim raw in
      if line = [] then None
      else case rx_at False rx_question line of
             None \<Rightarrow> None
           | Some g \<Rightarrow> map_option js_trim (capture g 2))"

definition numbered :: "string \<Rightarrow> string list" where
  "numbered text = List.map_filter question_of_line (js_split text [CHR 0x0A])"

definition starts :: "string \<Rightarrow> Exercise \<Rightarrow> bool" where
  "starts q e = prefix q (question e)"


text \<open>
  \<open>in_order qs es\<close>: the exercises \<open>es\<close> begin with the question texts \<open>qs\<close> in
  the same order, up to question texts that are left out; none is left out when no
  question text is empty. \<open>parse_inv\<close> is the invariant of the loop.
\<close>

definition in_order :: "string list \<Rightarrow> Exercise list \<Rightarrow> bool" where
  "in_order qs es =
     (\<exists>sub. subseq sub qs \<and> list_all2 starts sub es \<and> ([] \<notin> set qs \<longrightarrow> sub = qs))"

definition parse_inv :: "parse_state \<Rightarrow> string list \<Rightarrow> bool" where
  "parse_inv st qs =
     (case currentExercise st of
        None \<Rightarrow> qs = [] \<and> exercises st = []
      | Some e \<Rightarrow> \<exists>qs0 q. qs = qs0 @ [q] \<and> starts q e \<and> in_order qs0 (exercises st))"


section \<open>ExerciseContent.tsx: loading the exercises\<close>

text \<open>
  A value that \<open>JSON.parse\<close> returns. The members of an object are listed in the order
  in which \<open>Object.entries\<close> enumerates them; a number is kept as its text.
\<close>

datatype json = JNull | JBool bool | JNum string | JStr string
  | JArr "json list" | JObj "(string \<times> json) list"

text \<open>
  The inputs of \<open>fetchExercises\<close> come from outside: what \<open>fetch\<close> does (it rejects, or
  it answers with a status and a body), and what \<open>JSON.parse\<close> makes of the body
  (\<open>None\<close> when it throws).
\<close>

datatype fetched = Rejected | Responded nat string

definition response_ok :: "nat \<Rightarrow> bool" where
  "response_ok status = (200 \<le> status \<and> status \<le> 299)"

text \<open>The decimal text of a number, as a template literal inserts it.\<close>

fun show_nat :: "nat \<Rightarrow> string" where
  "show_nat n =
     (if n < 10 then [char_of (48 + n)] else show_nat (n div 10) @ [char_of (48 + n mod 10)])"

declare show_nat.simps [simp del]

text \<open>The state \<open>exercises\<close> holds what was parsed from JSON, what was extracted from
  text, or the empty list that the error path sets.\<close>

datatype shown = JsonExercises "json list" | TextExercises "Exercise list" | NoExercises

record ExerciseContent =
  shown_exercises :: shown
  loading :: bool
  error :: "js_error option"

text \<open>\<open>typeof value === 'object' && value !== null && 'question' in value\<close>\<close>

fun has_question :: "json \<Rightarrow> bool" where
  "has_question (JObj kv) = (''question'' \<in> set (map fst kv))"
| "has_question (JArr xs) = False"
| "has_question (JStr s) = False"
| "has_question (JNum n) = False"
| "has_question (JBool b) = False"
| "has_question JNull = False"

text \<open>The values of \<open>Object.entries(jsonData)\<close>: the members of an object, the
  characters of a string, nothing for a number or a boolean.\<close>

fun entry_values :: "json \<Rightarrow> json list" where
  "entry_values (JObj kv) = map snd kv"
| "entry_values (JArr xs) = xs"
| "entry_values (JStr s) = map (\<lambda>c. JStr [c]) s"
| "entry_values (JNum n) = []"
| "entry_values (JBool b) = []"
| "entry_values JNull = []"

text \<open>\<open>jsonData.exercises\<close>, when it is an array.\<close>

fun exercises_array :: "json \<Rightarrow> json list option" where
  "exercises_array (JObj kv) =
     (case map_of kv ''exercises'' of Some (JArr xs) \<Rightarrow> Some xs | _ \<Rightarrow> None)"
| "exercises_array (JArr xs) = None"
| "exercises_array (JStr s) = None"
| "exercises_array (JNum n) = None"
| "exercises_array (JBool b) = None"
| "exercises_array JNull = None"

text \<open>
  Lines 46 to 70, inside the inner \<open>try\<close>, with the parsed value. Reading
  \<open>jsonData.exercises\<close> of \<open>null\<close> throws.
\<close>

definition json_strategy :: "json \<Rightarrow> js_error + json list" where
  "json_strategy jsonData =
     (case jsonData of
        JArr xs \<Rightarrow> Inr xs
      | JNull \<Rightarrow> Inl TypeError
      | _ \<Rightarrow>
          (case exercises_array jsonData of
             Some xs \<Rightarrow> Inr xs
           | None \<Rightarrow>
               let extractedExercises = filter has_question (entry_values jsonData)
               in if extractedExercises \<noteq> [] then Inr extractedExercises
                  else Inl (Error (''Formato de exerc'' @ [CHR 0xED] @ ''cios n'' @ [CHR 0xE3]
                                   @ ''o reconhecido''))))"

text \<open>Lines 73 to 81, the \<open>catch\<close> of the inner \<open>try\<close>.\<close>

definition extraction_failed :: js_error where
  "extraction_failed =
     Error (''N'' @ [CHR 0xE3] @ ''o foi poss'' @ [CHR 0xED] @ ''vel extrair exerc'' @ [CHR 0xED]
            @ ''cios do conte'' @ [CHR 0xFA] @ ''do'')"

definition text_strategy :: "string \<Rightarrow> js_error + shown" where
  "text_strategy content =
     (case parseTextExercises content of
        Inl e \<Rightarrow> Inl e
      | Inr textExercises \<Rightarrow>
          if textExercises \<noteq> [] then Inr (TextExercises textExercises)
          else Inl extraction_failed)"

definition http_error :: "nat \<Rightarrow> js_error" where
  "http_error status =
     Error (''Erro ao carregar exerc'' @ [CHR 0xED] @ ''cios ('' @ show_nat status @ '')'')"

text \<open>
  \<open>fetchExercises\<close>: the outer \<open>try\<close> gives the exercises or the exception that its
  \<open>catch\<close> receives; then \<open>error\<close> and \<open>exercises\<close> are set and \<open>loading\<close> is reset.
\<close>

definition load :: "fetched \<Rightarrow> json option \<Rightarrow> js_error + shown" where
  "load resp parsed =
     (case resp of
        Rejected \<Rightarrow> Inl FetchRejected
      | Responded status content \<Rightarrow>
          if \<not> response_ok status then Inl (http_error status)
          else (case (case parsed of None \<Rightarrow> None
                      | Some jsonData \<Rightarrow>
                          (case json_strategy jsonData of Inl e \<Rightarrow> None | Inr xs \<Rightarrow> Some xs)) of
                  Some xs \<Rightarrow> Inr (JsonExercises xs)
                | None \<Rightarrow> text_strategy content))"

text \<open>
  The parsed values for which the JSON strategy gives no list: \<open>JSON.parse\<close> threw, or
  the value is \<open>null\<close>, or it is no array, has no \<open>exercises\<close> array and has no member
  with a \<open>question\<close>.
\<close>

definition no_json_exercises :: "json option \<Rightarrow> bool" where
  "no_json_exercises parsed =
     (case parsed of
        None \<Rightarrow> True
      | Some (JArr xs) \<Rightarrow> False
      | Some JNull \<Rightarrow> True
      | Some v \<Rightarrow> exercises_array v = None \<and> filter has_question (entry_values v) = [])"

definition fetchExercises :: "fetched \<Rightarrow> json option \<Rightarrow> ExerciseContent" where
  "fetchExercises resp parsed =
     (case load resp parsed of
        Inr xs \<Rightarrow> \<lparr>shown_exercises = xs, loading = False, error = None\<rparr>
      | Inl err \<Rightarrow> \<lparr>shown_exercises = NoExercises, loading = False, error = Some err\<rparr>)"

text \<open>
  Which branch of the component's \<open>return\<close>s is taken: the three early returns, or the
  list of lines 231 and following (\<open>ExerciseCards\<close>). What the list branch then does with
  each member of the list is not part of the model.
\<close>

datatype rendering = Spinner | ErrorBox js_error | EmptyNotice | ExerciseCards

fun exercise_count :: "shown \<Rightarrow> nat" where
  "exercise_count (JsonExercises xs) = length xs"
| "exercise_count (TextExercises es) = length es"
| "exercise_count NoExercises = 0"

definition render :: "ExerciseContent \<Rightarrow> rendering" where
  "render st =
     (if loading st then Spinner
      else case error st of
             Some e \<Rightarrow> ErrorBox e
           | None \<Rightarrow> if exercise_count (shown_exercises st) = 0 then EmptyNotice
                     else ExerciseCards)"

section \<open>AdaptiveResponse.tsx: extractFilePath\<close>

datatype media_type = MVideo | MAudio | MImage | MText | MExercises | MMixed

fun media_type_name :: "media_type \<Rightarrow> string" where
  "media_type_name MVideo = ''video''"
| "media_type_name MAudio = ''audio''"
| "media_type_name MImage = ''image''"
| "media_type_name MText = ''text''"
| "media_type_name MExercises = ''exercises''"
| "media_type_name MMixed = ''mixed''"

text \<open>The fields of the response that \<open>extractFilePath\<close> reads; an optional field
  that is absent is \<open>None\<close>.\<close>

record AnalyzeResponse =
  response :: string
  user_id :: string
  file_path :: "string option"
  primary_media_type :: "media_type option"

text \<open>\<^verbatim>\<open>/<!-- file_path: (.*?) -->/\<close>\<close>

definition rx_comment :: rx where
  "rx_comment = seqs [Str ''<!-- file_path: '', Grp 1 (Rep False AAny 0 None), Str '' -->'']"

text \<open>\<^verbatim>\<open>[^\s\n]\<close>, \<^verbatim>\<open>[^"\s\n]\<close> and \<^verbatim>\<open>\s\<close>\<close>

definition not_space :: atom where
  "not_space = ANotSet [CSpace, COne (CHR 0x0A)]"

definition not_quote_space :: atom where
  "not_quote_space = ANotSet [COne (CHR 0x22), CSpace, COne (CHR 0x0A)]"

definition space :: atom where
  "space = ASet [CSpace]"

text \<open>\<^verbatim>\<open>/(?:Arquivo|File):\s*(\/[^\s\n]+|[a-zA-Z]:[\\\/][^\s\n]+|[^\s\n]+\.[a-zA-Z0-9]{2,4})/i\<close>\<close>

definition rx_file_line :: rx where
  "rx_file_line =
     seqs [strs [''Arquivo'', ''File''], Str '':'', Rep True space 0 None,
           Grp 1 (Alt (seqs [Str ''/'', Rep True not_space 1 None])
                 (Alt (seqs [Atom letter, Str '':'', Atom (ASet [COne (CHR 0x5C), COne (CHR ''/'')]),
                             Rep True not_space 1 None])
                      (seqs [Rep True not_space 1 None, Str ''.'',
                             Rep True (ASet [CRange (CHR ''a'') (CHR ''z''),
                                             CRange (CHR ''A'') (CHR ''Z''),
                                             CRange (CHR ''0'') (CHR ''9'')]) 2 (Some 4)])))]"

text \<open>
  The four shapes of the media patterns, for labels \<open>ls\<close>, extensions \<open>es\<close> and a
  directory \<open>d\<close>:
  \<^verbatim>\<open>/\(?(?:l1|l2):\s*(.*?\.(?:e1|e2))\)?/i\<close>,
  \<^verbatim>\<open>/Arquivo[^:]*:\s*(.*?\.(?:e1|e2))/i\<close>,
  \<^verbatim>\<open>/(\/processed_data\/d\/[^"\s\n]+)/i\<close> and
  \<^verbatim>\<open>/(d\/[^"\s\n]+\.(?:e1|e2))/i\<close>.
\<close>

definition rx_labelled :: "string list \<Rightarrow> string list \<Rightarrow> rx" where
  "rx_labelled ls es =
     seqs [Rep True (AChr (CHR ''('')) 0 (Some 1), strs ls, Str '':'', Rep True space 0 None,
           Grp 1 (seqs [Rep False AAny 0 None, Str ''.'', strs es]),
           Rep True (AChr (CHR '')'')) 0 (Some 1)]"

definition rx_arquivo :: "string list \<Rightarrow> rx" where
  "rx_arquivo es =
     seqs [Str ''Arquivo'', Rep True (ANotSet [COne (CHR '':'')]) 0 None, Str '':'',
           Rep True space 0 None, Grp 1 (seqs [Rep False AAny 0 None, Str ''.'', strs es])]"

definition rx_rooted :: "string \<Rightarrow> rx" where
  "rx_rooted d = Grp 1 (seqs [Str (''/processed_data/'' @ d @ ''/''), Rep True not_quote_space 1 None])"

definition rx_bare :: "string \<Rightarrow> string list \<Rightarrow> rx" where
  "rx_bare d es = Grp 1 (seqs [Str (d @ ''/''), Rep True not_quote_space 1 None, Str ''.'', strs es])"

definition Exercicios :: string where
  "Exercicios = ''Exerc'' @ [CHR 0xED] @ ''cios''"

text \<open>The list \<open>patterns\<close> (lines 151 to 180), in its order, each with its \<open>type\<close>.\<close>

definition patterns :: "(rx \<times> string) list" where
  "patterns =
     [(rx_labelled [''Video'', ''V'' @ [CHR 0xED] @ ''deo''] video_exts, ''video''),
      (rx_arquivo video_exts, ''video''),
      (rx_rooted ''videos'', ''video''),
      (rx_bare ''videos'' video_exts, ''video''),
      (rx_labelled [''Audio'', [CHR 0xC1] @ ''udio''] audio_exts, ''audio''),
      (rx_arquivo audio_exts, ''audio''),
      (rx_rooted ''audio'', ''audio''),
      (rx_bare ''audio'' audio_exts, ''audio''),
      (rx_labelled [''Imagem'', ''Image''] image_exts, ''image''),
      (rx_arquivo image_exts, ''image''),
      (rx_rooted ''images'', ''image''),
      (rx_bare ''images'' image_exts, ''image''),
      (rx_labelled [Exercicios, ''Exercicios'', ''Exercises''] [''json'', ''txt''], ''exercises''),
      (rx_arquivo [''json''], ''exercises''),
      (Grp 1 (seqs [Str (''/processed_data/text/'' @ Exercicios @ ''.''), strs [''txt'', ''json'']]),
       ''exercises''),
      (Grp 1 (seqs [Str (''text/'' @ Exercicios @ ''.''), strs [''txt'', ''json'']]), ''exercises''),
      (rx_labelled [''Texto'', ''Text''] [''txt'', ''md'', ''pdf''], ''text''),
      (rx_rooted ''text'', ''text''),
      (rx_bare ''text'' [''txt'', ''md'', ''pdf''], ''text'')]"

text \<open>\<open>m && m[1]\<close>: the first group of a match, when there is a match and the group is
  neither \<open>undefined\<close> nor empty.\<close>

definition found :: "captures option \<Rightarrow> string option" where
  "found m =
     (case m of
        None \<Rightarrow> None
      | Some g \<Rightarrow> (case capture g 1 of
                    None \<Rightarrow> None
                  | Some x \<Rightarrow> if x = [] then None else Some x))"

text \<open>The loop over \<open>patterns\<close> (lines 183 to 189).\<close>

fun first_pattern :: "(rx \<times> string) list \<Rightarrow> string \<Rightarrow> string option" where
  "first_pattern [] text = None"
| "first_pattern ((regex, type) # ps) text =
     (case found (rx_search True regex text) of
        Some x \<Rightarrow> Some x
      | None \<Rightarrow> first_pattern ps text)"

definition defaultFiles :: "(string \<times> string) list" where
  "defaultFiles =
     [(''video'', ''videos/Dica do professor.mp4''),
      (''audio'', ''audio/Dica do professor.mp3''),
      (''image'', ''images/Infografico-1.jpg''),
      (''text'', ''text/Apresenta'' @ [CHR 0xE7, CHR 0xE3] @ ''o.txt''),
      (''exercises'', ''text/'' @ Exercicios @ ''.txt'')]"

text \<open>Lines 191 to 217: the \<open>file_path\<close> of the response, then the default file of the
  primary media type.\<close>

definition fallbackPath :: "AnalyzeResponse \<Rightarrow> string option" where
  "fallbackPath data =
     (case (case file_path data of None \<Rightarrow> None | Some p \<Rightarrow> if p = [] then None else Some p) of
        Some p \<Rightarrow> Some p
      | None \<Rightarrow>
          (case primary_media_type data of
             None \<Rightarrow> None
           | Some t \<Rightarrow>
               (case map_of defaultFiles (toLowerCase (media_type_name t)) of
                  None \<Rightarrow> None
                | Some f \<Rightarrow> if f = [] then None else Some f)))"

definition extractFilePath :: "AnalyzeResponse \<Rightarrow> string \<Rightarrow> string option" where
  "extractFilePath data text =
     (case found (rx_search False rx_comment text) of
        Some x \<Rightarrow> Some x
      | None \<Rightarrow>
          (case found (rx_search True rx_file_line text) of
             Some x \<Rightarrow> Some x
           | None \<Rightarrow>
               (case first_pattern patterns text of
                  Some x \<Rightarrow> Some x
                | None \<Rightarrow> fallbackPath data)))"

text \<open>What \<open>extractFilePath\<close> does after the test of the comment marker: the labelled
  line, the media patterns, the \<open>file_path\<close> of the response and the default file.\<close>

definition lower_rules :: "AnalyzeResponse \<Rightarrow> string \<Rightarrow> string option" where
  "lower_rules data text =
     (case found (rx_search True rx_file_line text) of
        Some x \<Rightarrow> Some x
      | None \<Rightarrow>
          (case first_pattern patterns text of
             Some x \<Rightarrow> Some x
           | None \<Rightarrow> fallbackPath data))"

section \<open>InteractivePrompt.tsx: the assessment flow\<close>

datatype question_type = MultipleChoice | OpenEnded

text \<open>A question; \<open>q_options\<close> holds the pairs of value and label. The fields
  \<open>answer\<close> and \<open>isCorrect\<close> of the interface are never written.\<close>

record Question =
  q_id :: nat
  q_text :: string
  q_type :: question_type
  q_options :: "(string \<times> string) list option"
  userResponse :: "string option"

text \<open>The argument of \<open>onComplete\<close> and the request of \<open>analyzeQuery\<close>.\<close>

record AssessmentResult =
  r_userId :: string
  r_knowledgeGaps :: "string list"
  r_preferredFormat :: string
  r_level :: string

record AnalyzeRequest =
  query :: string
  user_level :: string
  preferred_format :: string
  req_user_id :: string

text \<open>
  The properties of the component, and the backend behind \<open>analyzeQuery\<close>: the
  response text for a request, \<open>None\<close> when the call fails.
\<close>

record InteractivePromptProps =
  initialUserId :: "string option"
  onComplete_given :: bool

type_synonym backend = "AnalyzeRequest \<Rightarrow> string option"

text \<open>
  The state of the component. \<open>formatPreferences\<close> is an object from format to count,
  a count being \<open>None\<close> when it is \<open>NaN\<close>; \<open>completions\<close> is the list of the calls of
  \<open>onComplete\<close> so far, which the component does not hold itself.
\<close>

record Assessment =
  userId :: string
  currentStep :: nat
  isLoading :: bool
  knowledgeGaps :: "string list"
  preferredFormat :: string
  userLevel :: string
  currentQuestion :: "Question option"
  questions :: "Question list"
  userInput :: string
  formatPreferences :: "(string \<times> nat option) list"
  assessmentComplete :: bool
  a_error :: "string option"
  completions :: "AssessmentResult list"

definition topics :: "string list" where
  "topics = [''HTML'', ''CSS'', ''JavaScript'', ''Acessibilidade Web'', ''Responsividade'']"

definition iniciante :: string where
  "iniciante = ''iniciante''"

definition intermediario :: string where
  "intermediario = ''intermedi'' @ [CHR 0xE1] @ ''rio''"

definition avancado :: string where
  "avancado = ''avan'' @ [CHR 0xE7] @ ''ado''"

definition level_options :: "(string \<times> string) list" where
  "level_options =
     [(iniciante, ''Iniciante - Conhe'' @ [CHR 0xE7] @ ''o pouco ou nada''),
      (intermediario, ''Intermedi'' @ [CHR 0xE1] @ ''rio - Tenho conhecimento b'' @ [CHR 0xE1] @ ''sico''),
      (avancado, ''Avan'' @ [CHR 0xE7] @ ''ado - Tenho bom dom'' @ [CHR 0xED] @ ''nio'')]"

definition format_options :: "(string \<times> string) list" where
  "format_options =
     [(''texto'', ''Texto - Artigos e documenta'' @ [CHR 0xE7, CHR 0xE3] @ ''o escrita''),
      (''v'' @ [CHR 0xED] @ ''deo'', ''V'' @ [CHR 0xED] @ ''deo - Aulas e tutoriais em v'' @ [CHR 0xED] @ ''deo''),
      ([CHR 0xE1] @ ''udio'', [CHR 0xC1] @ ''udio - Podcasts e explica'' @ [CHR 0xE7, CHR 0xF5]
         @ ''es em '' @ [CHR 0xE1] @ ''udio''),
      (''imagem'', ''Imagem - Infogr'' @ [CHR 0xE1] @ ''ficos e diagramas'')]"

text \<open>\<open>topics.map((topic, index) => ...)\<close>, the question on the format and the two
  open questions (lines 67 to 105).\<close>

definition topic_question :: "nat \<Rightarrow> string \<Rightarrow> Question" where
  "topic_question index topic =
     \<lparr>q_id = index + 1,
      q_text = ''Qual '' @ [CHR 0xE9] @ '' seu n'' @ [CHR 0xED] @ ''vel de conhecimento em ''
               @ topic @ ''?'',
      q_type = MultipleChoice, q_options = Some level_options, userResponse = None\<rparr>"

definition generatedQuestions :: "Question list" where
  "generatedQuestions =
     map (\<lambda>(index, topic). topic_question index topic) (enumerate 0 topics)
     @ [\<lparr>q_id = length topics + 1,
         q_text = ''Qual formato voc'' @ [CHR 0xEA] @ '' prefere para aprender novos conte''
                  @ [CHR 0xFA] @ ''dos?'',
         q_type = MultipleChoice, q_options = Some format_options, userResponse = None\<rparr>]"

definition knowledgeQuestions :: "Question list" where
  "knowledgeQuestions =
     [\<lparr>q_id = length topics + 2,
       q_text = ''O que '' @ [CHR 0xE9] @ '' HTML e qual sua fun'' @ [CHR 0xE7, CHR 0xE3]
                @ ''o no desenvolvimento web?'',
       q_type = OpenEnded, q_options = None, userResponse = None\<rparr>,
      \<lparr>q_id = length topics + 3,
       q_text = ''Descreva brevemente a estrutura b'' @ [CHR 0xE1] @ ''sica de uma p''
                @ [CHR 0xE1] @ ''gina HTML.'',
       q_type = OpenEnded, q_options = None, userResponse = None\<rparr>]"

definition generateInitialQuestions :: "Assessment \<Rightarrow> Assessment" where
  "generateInitialQuestions st =
     st\<lparr>questions := generatedQuestions @ knowledgeQuestions,
        currentQuestion := js_index generatedQuestions 0,
        currentStep := 1\<rparr>"

text \<open>\<open>{...prev, [key]: v}\<close>: the member is replaced in place or added at the end.\<close>

fun obj_set :: "(string \<times> 'v) list \<Rightarrow> string \<Rightarrow> 'v \<Rightarrow> (string \<times> 'v) list" where
  "obj_set [] k v = [(k, v)]"
| "obj_set ((k', v') # kvs) k v = (if k' = k then (k, v) # kvs else (k', v') # obj_set kvs k v)"

text \<open>\<open>xs.findIndex(p)\<close>, \<open>None\<close> standing for \<open>-1\<close>; \<open>s.replace(w, r)\<close> for a text \<open>w\<close>
  replaces the first occurrence.\<close>

fun findIndex :: "('a \<Rightarrow> bool) \<Rightarrow> 'a list \<Rightarrow> nat option" where
  "findIndex p [] = None"
| "findIndex p (x # xs) = (if p x then Some 0 else map_option Suc (findIndex p xs))"

fun js_replace :: "string \<Rightarrow> string \<Rightarrow> string \<Rightarrow> string" where
  "js_replace [] w r = (if w = [] then r else [])"
| "js_replace (c # cs) w r =
     (if prefix w (c # cs) then r @ drop (length w) (c # cs) else c # js_replace cs w r)"

text \<open>
  \<open>updateUserLevel\<close>: the level with the most answers among the three, taken in the
  order of the object \<open>levels\<close>, a later one winning only with a strictly greater count;
  nothing is set when no answer is a level.
\<close>

definition is_level :: "string \<Rightarrow> bool" where
  "is_level a = (a = iniciante \<or> a = intermediario \<or> a = avancado)"

definition levelQuestions :: "Question list \<Rightarrow> Question list" where
  "levelQuestions qs =
     filter (\<lambda>q. case userResponse q of None \<Rightarrow> False | Some a \<Rightarrow> a \<noteq> [] \<and> is_level a) qs"

definition level_count :: "Question list \<Rightarrow> string \<Rightarrow> nat" where
  "level_count qs level = length (filter (\<lambda>q. userResponse q = Some level) qs)"

definition maxLevel :: "Question list \<Rightarrow> string" where
  "maxLevel qs =
     fst (foldl (\<lambda>(maxLevel, maxCount) level.
                   if level_count qs level > maxCount then (level, level_count qs level)
                   else (maxLevel, maxCount))
                (intermediario, 0) [iniciante, intermediario, avancado])"

definition updateUserLevel :: "Question list \<Rightarrow> Assessment \<Rightarrow> Assessment" where
  "updateUserLevel updatedQuestions st =
     (if levelQuestions updatedQuestions \<noteq> []
      then st\<lparr>userLevel := maxLevel (levelQuestions updatedQuestions)\<rparr> else st)"

text \<open>
  \<open>completeAssessment\<close>. The values \<open>userId\<close>, \<open>userLevel\<close>, \<open>preferredFormat\<close> and
  \<open>knowledgeGaps\<close> that it reads are those of the render in which the handler was made
  (\<open>cl\<close>, the closure), while the updates go to the current state \<open>st\<close>. The loop over
  the open questions stops at the first failing call, which the \<open>catch\<close> turns into the
  error message. The whole handler is one step of the model: while it waits for the
  backend, \<open>isLoading\<close> is set and the component renders the spinner only, so that no
  other handler can run in between.
\<close>

definition gap_topic :: "string \<Rightarrow> string" where
  "gap_topic text =
     (if js_includes text ''HTML'' then ''HTML''
      else if js_includes text ''CSS'' then ''CSS''
      else if js_includes text ''JavaScript'' then ''JavaScript''
      else ''Desenvolvimento Web'')"

definition evaluation_query :: "Question \<Rightarrow> string \<Rightarrow> string" where
  "evaluation_query qn given =
     ''Avalie esta resposta para a pergunta '' @ [CHR 0x22] @ q_text qn @ [CHR 0x22]
     @ '': '' @ [CHR 0x22] @ given @ [CHR 0x22]"

definition openEndedQuestions :: "Question list \<Rightarrow> Question list" where
  "openEndedQuestions finalQuestions =
     filter (\<lambda>q. q_type q = OpenEnded
                 \<and> (case userResponse q of None \<Rightarrow> False | Some a \<Rightarrow> a \<noteq> []))
            finalQuestions"

text \<open>The loop: \<open>True\<close> with the state when every call succeeded, \<open>False\<close> with the
  state reached when a call failed.\<close>

fun analyze_answers :: "backend \<Rightarrow> Assessment \<Rightarrow> Question list \<Rightarrow> Assessment \<Rightarrow> bool \<times> Assessment" where
  "analyze_answers api cl [] st = (True, st)"
| "analyze_answers api cl (qn # rest) st =
     (case userResponse qn of
        None \<Rightarrow> analyze_answers api cl rest st
      | Some given \<Rightarrow>
          if given = [] then analyze_answers api cl rest st
          else (case api \<lparr>query = evaluation_query qn given, user_level = userLevel cl,
                          preferred_format = preferredFormat cl, req_user_id = userId cl\<rparr> of
                  None \<Rightarrow> (False, st)
                | Some analysis \<Rightarrow>
                    analyze_answers api cl rest
                      (if js_includes (toLowerCase analysis) ''incorreto''
                          \<or> js_includes (toLowerCase analysis) ''incompleto''
                       then (if gap_topic (q_text qn) \<in> set (knowledgeGaps cl) then st
                             else st\<lparr>knowledgeGaps :=
                                       knowledgeGaps st @ [gap_topic (q_text qn)]\<rparr>)
                       else st)))"

definition completeAssessment ::
  "InteractivePromptProps \<Rightarrow> backend \<Rightarrow> Assessment \<Rightarrow> Question list \<Rightarrow> Assessment \<Rightarrow> Assessment" where
  "completeAssessment props api cl finalQuestions st =
     (case analyze_answers api cl (openEndedQuestions finalQuestions) (st\<lparr>isLoading := True\<rparr>) of
        (False, st') \<Rightarrow>
          st'\<lparr>a_error := Some ''Ocorreu um erro ao processar suas respostas. Tente novamente.'',
              isLoading := False\<rparr>
      | (True, st') \<Rightarrow>
          (if onComplete_given props
           then st'\<lparr>assessmentComplete := True,
                    completions := completions st'
                      @ [\<lparr>r_userId = userId cl, r_knowledgeGaps = knowledgeGaps cl,
                          r_preferredFormat = preferredFormat cl, r_level = userLevel cl\<rparr>],
                    isLoading := False\<rparr>
           else st'\<lparr>assessmentComplete := True, isLoading := False\<rparr>))"

text \<open>
  \<open>handleAnswer\<close>, for the state \<open>cl\<close> of the render in which the handler was made.
  Were \<open>text.split('em ')[1]\<close> \<open>undefined\<close>, the handler would stop there with the
  updates made so far.
\<close>

definition advance ::
  "InteractivePromptProps \<Rightarrow> backend \<Rightarrow> Assessment \<Rightarrow> Question \<Rightarrow> Question list \<Rightarrow> Assessment \<Rightarrow> Assessment" where
  "advance props api cl cq updatedQuestions st =
     (let nextQuestionIndex =
            (case findIndex (\<lambda>q. q_id q = q_id cq) (questions cl) of None \<Rightarrow> 0 | Some i \<Rightarrow> i + 1)
      in if nextQuestionIndex < length (questions cl)
         then st\<lparr>currentQuestion := js_index (questions cl) nextQuestionIndex, userInput := []\<rparr>
         else completeAssessment props api cl updatedQuestions st)"

definition handleAnswer :: "InteractivePromptProps \<Rightarrow> backend \<Rightarrow> Assessment \<Rightarrow> string \<Rightarrow> Assessment" where
  "handleAnswer props api cl given =
     (case currentQuestion cl of
        None \<Rightarrow> cl
      | Some cq \<Rightarrow>
          let updatedQuestions =
                map (\<lambda>q. if q_id q = q_id cq then cq\<lparr>userResponse := Some given\<rparr> else q)
                    (questions cl);
              st1 = cl\<lparr>questions := updatedQuestions\<rparr>;
              st2 = (if js_includes (q_text cq) (''formato voc'' @ [CHR 0xEA] @ '' prefere'')
                     then st1\<lparr>preferredFormat := given,
                              formatPreferences :=
                                obj_set (formatPreferences st1) given
                                  (case map_of (formatPreferences st1) given of
                                     Some (Some n) \<Rightarrow> Some (n + 1) | _ \<Rightarrow> None)\<rparr>
                     else st1)
          in if js_includes (q_text cq) (''n'' @ [CHR 0xED] @ ''vel de conhecimento em'')
             then (case js_index (js_split (q_text cq) ''em '') 1 of
                     None \<Rightarrow> st2
                   | Some t \<Rightarrow>
                       advance props api cl cq updatedQuestions
                         (updateUserLevel updatedQuestions
                            (if given = iniciante
                             then st2\<lparr>knowledgeGaps := knowledgeGaps st2 @ [js_replace t ''?'' []]\<rparr>
                             else st2)))
             else advance props api cl cq updatedQuestions st2)"

definition startAssessment :: "Assessment \<Rightarrow> Assessment" where
  "startAssessment st =
     (if js_trim (userId st) = []
      then st\<lparr>a_error := Some (''Por favor, informe um ID de usu'' @ [CHR 0xE1]
                                 @ ''rio para continuar.'')\<rparr>
      else generateInitialQuestions (st\<lparr>a_error := None\<rparr>))"

text \<open>The effect on \<open>[userId, currentStep]\<close> (lines 58 to 62).\<close>

definition start_effect :: "Assessment \<Rightarrow> Assessment" where
  "start_effect st =
     (if currentStep st = 0 \<and> userId st \<noteq> [] then generateInitialQuestions st else st)"

definition mount :: "InteractivePromptProps \<Rightarrow> Assessment" where
  "mount props =
     start_effect
       \<lparr>userId = (case initialUserId props of None \<Rightarrow> [] | Some u \<Rightarrow> u),
        currentStep = 0, isLoading = False, knowledgeGaps = [], preferredFormat = ''texto'',
        userLevel = intermediario, currentQuestion = None, questions = [], userInput = [],
        formatPreferences = [(''texto'', Some 0), (''v'' @ [CHR 0xED] @ ''deo'', Some 0),
                             ([CHR 0xE1] @ ''udio'', Some 0), (''imagem'', Some 0)],
        assessmentComplete = False, a_error = None, completions = []\<rparr>"

text \<open>
  What the user can do: type the user id, press the start button, choose an option or
  type an answer, press the button of the question, press the button of the completion
  screen. \<open>enabled\<close> says whether the rendered screen offers the action (lines 429 to
  441 and the \<open>disabled\<close> attributes of the buttons).
\<close>

datatype event = TypeUserId string | ClickStart | Choose string | ClickNext | ClickContinue

definition question_shown :: "Assessment \<Rightarrow> Question option" where
  "question_shown st =
     (if \<not> isLoading st \<and> currentStep st > 0 \<and> \<not> assessmentComplete st
      then (case currentQuestion st of
              None \<Rightarrow> None
            | Some q \<Rightarrow> if q_type q = MultipleChoice \<and> q_options q = None then None else Some q)
      else None)"

fun enabled :: "Assessment \<Rightarrow> event \<Rightarrow> bool" where
  "enabled st (TypeUserId u) = (\<not> isLoading st \<and> currentStep st = 0)"
| "enabled st ClickStart = (\<not> isLoading st \<and> currentStep st = 0 \<and> js_trim (userId st) \<noteq> [])"
| "enabled st (Choose v) =
     (case question_shown st of
        None \<Rightarrow> False
      | Some q \<Rightarrow> (case q_options q of
                    Some os \<Rightarrow> q_type q = OpenEnded \<or> v \<in> set (map fst os)
                  | None \<Rightarrow> True))"
| "enabled st ClickNext =
     (case question_shown st of
        None \<Rightarrow> False
      | Some q \<Rightarrow> if q_type q = MultipleChoice then userInput st \<noteq> []
                  else 5 \<le> length (js_trim (userInput st)))"
| "enabled st ClickContinue = (\<not> isLoading st \<and> assessmentComplete st)"

text \<open>The handler of each action; the button of the completion screen calls
  \<open>onComplete\<close> again (lines 395 to 409).\<close>

fun handle :: "InteractivePromptProps \<Rightarrow> backend \<Rightarrow> Assessment \<Rightarrow> event \<Rightarrow> Assessment" where
  "handle props api st (TypeUserId u) = start_effect (st\<lparr>userId := u\<rparr>)"
| "handle props api st ClickStart = startAssessment st"
| "handle props api st (Choose v) = st\<lparr>userInput := v\<rparr>"
| "handle props api st ClickNext = handleAnswer props api st (userInput st)"
| "handle props api st ClickContinue =
     (if onComplete_given props
      then st\<lparr>completions := completions st
                 @ [\<lparr>r_userId = userId st, r_knowledgeGaps = knowledgeGaps st,
                     r_preferredFormat = preferredFormat st, r_level = userLevel st\<rparr>]\<rparr>
      else st)"

definition step :: "InteractivePromptProps \<Rightarrow> backend \<Rightarrow> Assessment \<Rightarrow> event \<Rightarrow> Assessment" where
  "step props api st ev = (if enabled st ev then handle props api st ev else st)"

fun run :: "InteractivePromptProps \<Rightarrow> backend \<Rightarrow> Assessment \<Rightarrow> event list \<Rightarrow> Assessment" where
  "run props api st [] = st"
| "run props api st (ev # evs) = run props api (step props api st ev) evs"

text \<open>
  The answers \<open>iniciante\<close> to the questions on the topics, and the state in which the
  questions have just been generated for the user \<open>u\<close>.
\<close>

definition beginner_answers :: "event list" where
  "beginner_answers = concat (replicate (length topics) [Choose iniciante, ClickNext])"

definition fresh :: "string \<Rightarrow> Assessment" where
  "fresh u =
     generateInitialQuestions
       \<lparr>userId = u,
        currentStep = 0, isLoading = False, knowledgeGaps = [], preferredFormat = ''texto'',
        userLevel = intermediario, currentQuestion = None, questions = [], userInput = [],
        formatPreferences = [(''texto'', Some 0), (''v'' @ [CHR 0xED] @ ''deo'', Some 0),
                             ([CHR 0xE1] @ ''udio'', Some 0), (''imagem'', Some 0)],
        assessmentComplete = False, a_error = None, completions = []\<rparr>"

text \<open>
  \<open>settled\<close>: the state of the flow once the five questions on the topics are answered
  with \<open>iniciante\<close>. The list of gaps is \<open>topics\<close>, every call of \<open>onComplete\<close> so far
  carried that list, the questions have the identifiers and types that were generated,
  and the current question is one of the last three (\<open>text6\<close>, \<open>text7\<close> and \<open>text8\<close> are
  their texts).
\<close>

definition later_questions :: "(nat \<times> string \<times> question_type) list" where
  "later_questions =
     map (\<lambda>q. (q_id q, q_text q, q_type q)) (drop (length topics) (generatedQuestions @ knowledgeQuestions))"

definition settled :: "Assessment \<Rightarrow> bool" where
  "settled st =
     (knowledgeGaps st = topics \<and> 0 < currentStep st
      \<and> list_all (\<lambda>r. r_knowledgeGaps r = topics) (completions st)
      \<and> map (\<lambda>q. (q_id q, q_type q)) (take (length topics) (questions st))
          = map (\<lambda>q. (q_id q, q_type q)) (take (length topics) (generatedQuestions @ knowledgeQuestions))
      \<and> map (\<lambda>q. (q_id q, q_text q, q_type q)) (drop (length topics) (questions st)) = later_questions
      \<and> (case currentQuestion st of
            None \<Rightarrow> False
          | Some cq \<Rightarrow> (q_id cq, q_text cq, q_type cq) \<in> set later_questions))"

definition text6 :: string where "text6 = q_text ((generatedQuestions @ knowledgeQuestions) ! 5)"
definition text7 :: string where "text7 = q_text ((generatedQuestions @ knowledgeQuestions) ! 6)"
definition text8 :: string where "text8 = q_text ((generatedQuestions @ knowledgeQuestions) ! 7)"

text \<open>A sample run: a user id, a backend that approves every answer, and all eight
  questions answered.\<close>

definition sample_props :: InteractivePromptProps where
  "sample_props = \<lparr>initialUserId = Some ''u1'', onComplete_given = True\<rparr>"

definition approving :: backend where
  "approving = (\<lambda>request. Some ''Resposta correta.'')"


section \<open>The page that holds the assessment flow\<close>









section \<open>Facts about the string operations\<close>

lemma js_includes_iff: "js_includes s w \<longleftrightarrow> (\<exists>a b. s = a @ w @ b)"
proof (induction s)
  case Nil
  then show ?case by auto
next
  case (Cons c cs)
  show ?case
  proof
    assume "js_includes (c # cs) w"
    then consider "prefix w (c # cs)" | "js_includes cs w" by auto
    then show "\<exists>a b. c # cs = a @ w @ b"
    proof cases
      case 1
      then obtain b where "c # cs = w @ b" by (auto simp: prefix_def)
      then have "c # cs = [] @ w @ b" by simp
      then show ?thesis by blast
    next
      case 2
      with Cons.IH obtain a b where "cs = a @ w @ b" by blast
      then have "c # cs = (c # a) @ w @ b" by simp
      then show ?thesis by blast
    qed
  next
    assume "\<exists>a b. c # cs = a @ w @ b"
    then obtain a b where ab: "c # cs = a @ w @ b" by blast
    show "js_includes (c # cs) w"
    proof (cases a)
      case Nil
      with ab have "prefix w (c # cs)" by (simp add: prefix_def)
      then show ?thesis by simp
    next
      case (Cons x a')
      with ab have "cs = a' @ w @ b" by simp
      with Cons.IH have "js_includes cs w" by blast
      then show ?thesis by simp
    qed
  qed
qed

lemma js_split_from_nonempty: "js_split_from sep acc s \<noteq> []"
proof (induction sep acc s rule: js_split_from.induct)
  case (1 sep acc s)
  show ?case
  proof (cases "s = []")
    case True
    then show ?thesis by (subst js_split_from.simps) simp
  next
    case ne: False
    show ?thesis
    proof (cases "sep \<noteq> [] \<and> prefix sep s")
      case True
      with ne show ?thesis by (subst js_split_from.simps) simp
    next
      case False
      with "1.IH"(2) [OF ne False] ne show ?thesis
        by (subst js_split_from.simps) auto
    qed
  qed
qed

lemma js_split_from_length:
  "sep \<noteq> [] \<Longrightarrow> js_includes s sep \<Longrightarrow> 2 \<le> length (js_split_from sep acc s)"
proof (induction sep acc s rule: js_split_from.induct)
  case (1 sep acc s)
  show ?case
  proof (cases "s = []")
    case True
    with "1.prems" show ?thesis by simp
  next
    case ne: False
    show ?thesis
    proof (cases "prefix sep s")
      case True
      have "js_split_from sep [] (drop (length sep) s) \<noteq> []"
        by (rule js_split_from_nonempty)
      then have "1 \<le> length (js_split_from sep [] (drop (length sep) s))"
        by (cases "js_split_from sep [] (drop (length sep) s)") simp_all
      with ne True "1.prems"(1) show ?thesis
        by (subst js_split_from.simps) simp
    next
      case False
      from ne obtain c cs where s: "s = c # cs" by (cases s) auto
      with False "1.prems"(2) have "js_includes (tl s) sep" by simp
      with "1.IH"(2) [OF ne] False "1.prems"(1)
      have "2 \<le> length (js_split_from sep (acc @ [hd s]) (tl s))" by simp
      with ne False show ?thesis
        by (subst js_split_from.simps) simp
    qed
  qed
qed

lemma stripRoot_total: "\<exists>p. stripRoot url = Inr p"
proof (cases "js_includes url ''/processed_data/''")
  case True
  then have "2 \<le> length (js_split url ''/processed_data/'')"
    unfolding js_split_def by (intro js_split_from_length) simp_all
  with True show ?thesis by (simp add: stripRoot_def js_index_def)
next
  case False
  then show ?thesis by (simp add: stripRoot_def)
qed

lemma apiUrl_nonempty: "apiUrl env \<noteq> []"
  by (simp add: apiUrl_def split: option.splits)

lemma toLowerCase_append: "toLowerCase (a @ b) = toLowerCase a @ toLowerCase b"
  by (simp add: toLowerCase_def)

lemma lower_videos: "toLowerCase ''/videos/'' = ''/videos/''"
  unfolding toLowerCase_def by code_simp

lemma slash_free_no_prefix:
  assumes "CHR ''/'' \<notin> set name" and "CHR ''/'' \<in> set w"
  shows "\<not> prefix w name"
proof
  assume "prefix w name"
  then have "set w \<subseteq> set name" by (auto simp: prefix_def)
  with assms show False by blast
qed

lemma slash_free_no_includes:
  assumes "CHR ''/'' \<notin> set name" and "CHR ''/'' \<in> set w"
  shows "\<not> js_includes name w"
proof
  assume "js_includes name w"
  then obtain a b where "name = a @ w @ b" unfolding js_includes_iff by blast
  then have "set w \<subseteq> set name" by auto
  with assms show False by blast
qed

lemma slash_free_stripRoot:
  assumes "CHR ''/'' \<notin> set name"
  shows "stripRoot name = Inr name"
proof -
  have "\<not> js_includes name ''/processed_data/''"
    using assms by (rule slash_free_no_includes) simp
  moreover have "dropWhile (\<lambda>c. c = CHR ''/'') name = name"
    using assms by (cases name) auto
  ultimately show ?thesis by (simp add: stripRoot_def)
qed

lemma slash_free_hasMediaDir:
  assumes "CHR ''/'' \<notin> set name"
  shows "\<not> hasMediaDir name"
  using slash_free_no_prefix [OF assms] by (simp add: hasMediaDir_def mediaDirs_def)

lemma extension_Nil: "extension [] = []"
  unfolding extension_def toLowerCase_def js_split_def js_pop_def by code_simp

lemma http_prefix_append:
  "prefix ''http://'' a \<or> prefix ''https://'' a \<Longrightarrow>
   prefix ''http://'' (a @ b) \<or> prefix ''https://'' (a @ b)"
  by (auto simp: prefix_def)

section \<open>The Path Normalizer and the File-Type Classifier\<close>

text \<open>
  C9. \<open>validateMediaUrl\<close> never throws: the only place where it could, the read of
  \<open>split('/processed_data/')[1]\<close>, is always defined, so every input has a result;
  \<open>getFileType\<close> has no failing operation at all. On the empty string they return
  the empty string and \<open>unknown\<close>.
\<close>

theorem mediaUtils_total:
  "(\<exists>r. validateMediaUrl env url = Inr r)
   \<and> validateMediaUrl env [] = Inr []
   \<and> getFileType [] = Unknown"
proof -
  obtain p where "stripRoot url = Inr p" using stripRoot_total by blast
  then have "\<exists>r. validateMediaUrl env url = Inr r"
    by (simp add: validateMediaUrl_def)
  then show ?thesis by (simp add: validateMediaUrl_def getFileType_def)
qed

text \<open>
  C10. The Path Normalizer is idempotent when the API base URL begins with
  \<open>http://\<close> or \<open>https://\<close>: the result of \<open>validateMediaUrl\<close> is a fixed point of it.
\<close>

theorem validateMediaUrl_idempotent:
  assumes "prefix ''http://'' (apiUrl env) \<or> prefix ''https://'' (apiUrl env)"
  shows "\<exists>q. validateMediaUrl env p = Inr q \<and> validateMediaUrl env q = Inr q"
proof -
  have fixpt: "validateMediaUrl env (apiUrl env @ t) = Inr (apiUrl env @ t)" for t
    using http_prefix_append [OF assms, of t] apiUrl_nonempty [of env]
    by (simp add: validateMediaUrl_def)
  obtain c where c: "stripRoot p = Inr c" using stripRoot_total by blast
  consider "p = []" | "p \<noteq> []" "prefix ''http://'' p \<or> prefix ''https://'' p"
    | "p \<noteq> []" "\<not> (prefix ''http://'' p \<or> prefix ''https://'' p)"
    by blast
  then show ?thesis
  proof cases
    case 1
    then show ?thesis by (simp add: validateMediaUrl_def)
  next
    case 2
    then show ?thesis by (simp add: validateMediaUrl_def)
  next
    case 3
    then have "\<exists>t. validateMediaUrl env p = Inr (apiUrl env @ t)"
      using c by (cases "prefix ''/processed_data/'' p") (simp_all add: validateMediaUrl_def)
    then obtain t where "validateMediaUrl env p = Inr (apiUrl env @ t)" by blast
    with fixpt [of t] show ?thesis by simp
  qed
qed

theorem validateMediaUrl_idempotent_witness:
  "(prefix ''http://'' (apiUrl None) \<or> prefix ''https://'' (apiUrl None))
   \<and> (\<exists>q. validateMediaUrl None ''aula.mp4'' = Inr q \<and> validateMediaUrl None q = Inr q)"
proof -
  have h: "prefix ''http://'' (apiUrl None) \<or> prefix ''https://'' (apiUrl None)"
    by (simp add: apiUrl_def)
  show ?thesis using h validateMediaUrl_idempotent [OF h, of "''aula.mp4''"] by simp
qed

text \<open>
  C7. A bare file name (no slash in it) whose lowercase extension is in the video set is
  placed under \<open>videos/\<close>, and \<open>getFileType\<close> classifies the resulting URL as video.
\<close>

theorem video_name_normalized_and_classified:
  assumes bare: "CHR ''/'' \<notin> set name"
    and ext: "extension name \<in> set video_exts"
  shows "validateMediaUrl env name = Inr (apiUrl env @ ''/processed_data/videos/'' @ name)
       \<and> getFileType (apiUrl env @ ''/processed_data/videos/'' @ name) = Video"
proof -
  have ne: "name \<noteq> []"
    using ext by (auto simp: extension_Nil video_exts_def)
  have nohttp: "\<not> prefix ''http://'' name" "\<not> prefix ''https://'' name"
    "\<not> prefix ''/processed_data/'' name"
    by (rule slash_free_no_prefix [OF bare], simp)+
  have "inferDir name = ''videos/'' @ name"
    using ext by (simp add: inferDir_def)
  then have norm: "validateMediaUrl env name = Inr (apiUrl env @ ''/processed_data/videos/'' @ name)"
    using ne nohttp slash_free_stripRoot [OF bare] slash_free_hasMediaDir [OF bare]
    by (simp add: validateMediaUrl_def)
  have split: "apiUrl env @ ''/processed_data/videos/'' @ name
               = (apiUrl env @ ''/processed_data'') @ ''/videos/'' @ name"
    by simp
  have "toLowerCase (apiUrl env @ ''/processed_data/videos/'' @ name)
        = toLowerCase (apiUrl env @ ''/processed_data'') @ ''/videos/'' @ toLowerCase name"
    unfolding split by (simp only: toLowerCase_append lower_videos)
  then have "js_includes (toLowerCase (apiUrl env @ ''/processed_data/videos/'' @ name)) ''/videos/''"
    unfolding js_includes_iff by blast
  then have "getFileType (apiUrl env @ ''/processed_data/videos/'' @ name) = Video"
    by (simp add: getFileType_def Let_def)
  with norm show ?thesis by simp
qed

lemma aula_mp4_facts:
  "CHR ''/'' \<notin> set ''Aula.MP4''" "extension ''Aula.MP4'' \<in> set video_exts"
  unfolding extension_def toLowerCase_def js_split_def js_pop_def video_exts_def
  by code_simp+

theorem video_name_normalized_and_classified_witness:
  "CHR ''/'' \<notin> set ''Aula.MP4'' \<and> extension ''Aula.MP4'' \<in> set video_exts
   \<and> validateMediaUrl None ''Aula.MP4'' = Inr ''http://localhost:8000/processed_data/videos/Aula.MP4''
   \<and> getFileType ''http://localhost:8000/processed_data/videos/Aula.MP4'' = Video"
  using aula_mp4_facts video_name_normalized_and_classified [OF aula_mp4_facts, of None]
  by (simp add: apiUrl_def)

text \<open>
  C5, as the code has it. For a path that is not empty, is no absolute URL and does not
  itself begin with \<open>/processed_data/\<close>, whose remainder after the root marker begins
  with none of the five media directories and whose lowercase extension is none of the
  video, audio and image extensions: the extensions \<open>txt\<close>, \<open>md\<close> and \<open>pdf\<close> put the
  remainder under \<open>text/\<close>, and any other extension puts it under no subdirectory.
\<close>

theorem other_extension_placement:
  assumes "url \<noteq> []"
    and "\<not> prefix ''http://'' url" and "\<not> prefix ''https://'' url"
    and "\<not> prefix ''/processed_data/'' url"
    and "stripRoot url = Inr cleanPath"
    and "\<not> hasMediaDir cleanPath"
    and "extension cleanPath \<notin> set (video_exts @ audio_exts @ image_exts)"
  shows "validateMediaUrl env url =
         Inr (apiUrl env @ ''/processed_data/''
              @ (if extension cleanPath \<in> set [''txt'', ''md'', ''pdf'']
                 then ''text/'' @ cleanPath else cleanPath))"
  using assms by (simp add: validateMediaUrl_def inferDir_def)

lemma notes_xyz_facts:
  "''notes.xyz'' \<noteq> []"
  "\<not> prefix ''http://'' ''notes.xyz''" "\<not> prefix ''https://'' ''notes.xyz''"
  "\<not> prefix ''/processed_data/'' ''notes.xyz''"
  "stripRoot ''notes.xyz'' = Inr ''notes.xyz''"
  "\<not> hasMediaDir ''notes.xyz''"
  "extension ''notes.xyz'' \<notin> set (video_exts @ audio_exts @ image_exts)"
  "extension ''notes.xyz'' \<notin> set [''txt'', ''md'', ''pdf'']"
  unfolding extension_def toLowerCase_def js_split_def js_pop_def video_exts_def audio_exts_def
    image_exts_def stripRoot_def hasMediaDir_def mediaDirs_def js_index_def
  by code_simp+

theorem other_extension_placement_witness:
  "''notes.xyz'' \<noteq> []
   \<and> \<not> prefix ''http://'' ''notes.xyz'' \<and> \<not> prefix ''https://'' ''notes.xyz''
   \<and> \<not> prefix ''/processed_data/'' ''notes.xyz''
   \<and> stripRoot ''notes.xyz'' = Inr ''notes.xyz''
   \<and> \<not> hasMediaDir ''notes.xyz''
   \<and> extension ''notes.xyz'' \<notin> set (video_exts @ audio_exts @ image_exts)
   \<and> validateMediaUrl None ''notes.xyz'' = Inr ''http://localhost:8000/processed_data/notes.xyz''"
  using notes_xyz_facts
    other_extension_placement [OF notes_xyz_facts(1-7), of None]
  by (simp add: apiUrl_def)

text \<open>
  The claim as the specification words it fails: \<open>notes.xyz\<close> meets every condition of
  it, and the result has no \<open>text/\<close> in it.
\<close>

theorem unrecognized_extension_counterexample:
  "''notes.xyz'' \<noteq> []
   \<and> \<not> prefix ''http://'' ''notes.xyz'' \<and> \<not> prefix ''https://'' ''notes.xyz''
   \<and> \<not> hasMediaDir ''notes.xyz''
   \<and> extension ''notes.xyz'' \<notin> set (video_exts @ audio_exts @ image_exts)
   \<and> validateMediaUrl None ''notes.xyz'' = Inr ''http://localhost:8000/processed_data/notes.xyz''
   \<and> validateMediaUrl None ''notes.xyz'' \<noteq> Inr ''http://localhost:8000/processed_data/text/notes.xyz''"
  unfolding validateMediaUrl_def inferDir_def apiUrl_def
    extension_def toLowerCase_def js_split_def js_pop_def video_exts_def audio_exts_def
    image_exts_def stripRoot_def hasMediaDir_def mediaDirs_def js_index_def
  by code_simp

section \<open>The Exercise Parser\<close>

lemma rx_match_keeps:
  "(s', g') \<in> set (rx_match ci r (s, g)) \<Longrightarrow> map_of g n = Some x \<Longrightarrow> \<exists>y. map_of g' n = Some y"
proof (induction r arbitrary: s g s' g' x)
  case (Atom a)
  then show ?case by (auto split: list.splits if_splits)
next
  case (Str w)
  then show ?case by (auto split: option.splits)
next
  case (Rep gr a lo hi)
  then show ?case by (auto simp: Let_def split: if_splits)
next
  case (Seq r1 r2)
  from Seq.prems(1) obtain s1 g1 where m1: "(s1, g1) \<in> set (rx_match ci r1 (s, g))"
    and m2: "(s', g') \<in> set (rx_match ci r2 (s1, g1))" by auto
  from Seq.IH(1) [OF m1 Seq.prems(2)] obtain y where "map_of g1 n = Some y" by blast
  from Seq.IH(2) [OF m2 this] show ?case .
next
  case (Alt r1 r2)
  then show ?case by auto
next
  case (Grp m r)
  from Grp.prems(1) obtain g1 where m1: "(s', g1) \<in> set (rx_match ci r (s, g))"
    and g': "g' = (m, take (length s - length s') s) # g1" by auto
  from Grp.IH [OF m1 Grp.prems(2)] obtain y where "map_of g1 n = Some y" by blast
  with g' show ?case by simp
qed

lemma rx_match_binds:
  "binds n r \<Longrightarrow> (s', g') \<in> set (rx_match ci r (s, g)) \<Longrightarrow> \<exists>y. map_of g' n = Some y"
proof (induction r arbitrary: s g s' g')
  case (Seq r1 r2)
  from Seq.prems(2) obtain s1 g1 where m1: "(s1, g1) \<in> set (rx_match ci r1 (s, g))"
    and m2: "(s', g') \<in> set (rx_match ci r2 (s1, g1))" by auto
  show ?case
  proof (cases "binds n r2")
    case True
    from Seq.IH(2) [OF True m2] show ?thesis .
  next
    case False
    with Seq.prems(1) have "binds n r1" by simp
    from Seq.IH(1) [OF this m1] obtain y where "map_of g1 n = Some y" by blast
    from rx_match_keeps [OF m2 this] show ?thesis .
  qed
next
  case (Alt r1 r2)
  then show ?case by auto
next
  case (Grp m r)
  from Grp.prems(2) obtain g1 where m1: "(s', g1) \<in> set (rx_match ci r (s, g))"
    and g': "g' = (m, take (length s - length s') s) # g1" by auto
  show ?case
  proof (cases "n = m")
    case True
    with g' show ?thesis by simp
  next
    case False
    with Grp.prems(1) have "binds n r" by simp
    from Grp.IH [OF this m1] g' False show ?thesis by simp
  qed
qed simp_all

lemma rx_at_binds:
  assumes "rx_at ci r s = Some g" and "binds n r"
  shows "\<exists>y. capture g n = Some y"
proof -
  from assms(1) obtain s' rest where "rx_match ci r (s, []) = (s', g) # rest"
    by (auto simp: rx_at_def split: list.splits)
  then have "(s', g) \<in> set (rx_match ci r (s, []))" by simp
  from rx_match_binds [OF assms(2) this] show ?thesis by (simp add: capture_def)
qed

lemma binds_patterns:
  "binds 2 rx_question" "binds 1 rx_option" "binds 2 rx_answer" "binds 2 rx_explanation"
  by (simp_all add: rx_question_def rx_option_def rx_answer_def rx_explanation_def)

lemma parse_step_total: "\<exists>st'. parse_step st raw = Inr st'"
  unfolding parse_step_def Let_def
  by (auto split: option.splits dest: rx_at_binds [OF _ binds_patterns(1)]
      rx_at_binds [OF _ binds_patterns(2)] rx_at_binds [OF _ binds_patterns(3)]
      rx_at_binds [OF _ binds_patterns(4)])

lemma parse_lines_total: "\<exists>st'. parse_lines st ls = Inr st'"
proof (induction ls arbitrary: st)
  case Nil
  show ?case by simp
next
  case (Cons l ls)
  obtain st1 where "parse_step st l = Inr st1" using parse_step_total by blast
  with Cons.IH [of st1] show ?case by simp
qed

lemma in_order_skip:
  assumes "in_order qs es"
  shows "in_order (qs @ [[]]) es"
proof -
  from assms obtain sub where sub: "subseq sub qs" and all: "list_all2 starts sub es"
    unfolding in_order_def by blast
  from sub have "subseq sub (qs @ [[]])" by (rule subseq_rev_drop_many)
  with all show ?thesis unfolding in_order_def by auto
qed

lemma in_order_snoc:
  assumes "in_order qs es" and "starts q e"
  shows "in_order (qs @ [q]) (es @ [e])"
proof -
  from assms(1) obtain sub where sub: "subseq sub qs" "list_all2 starts sub es"
    "[] \<notin> set qs \<longrightarrow> sub = qs"
    unfolding in_order_def by blast
  have "subseq (sub @ [q]) (qs @ [q])" using sub(1) by (simp add: list_emb_append_mono)
  moreover have "list_all2 starts (sub @ [q]) (es @ [e])"
    using sub(2) assms(2) by (simp add: list_all2_appendI)
  moreover have "[] \<notin> set (qs @ [q]) \<longrightarrow> sub @ [q] = qs @ [q]" using sub(3) by simp
  ultimately show ?thesis unfolding in_order_def by blast
qed

lemma starts_options [simp]: "starts q (e\<lparr>options := x\<rparr>) = starts q e"
  "starts q (e\<lparr>answer := y\<rparr>) = starts q e" "starts q (e\<lparr>explanation := z\<rparr>) = starts q e"
  by (simp_all add: starts_def)

lemma push_current_in_order:
  assumes "parse_inv st qs"
  shows "in_order qs (exercises (push_current st))"
proof (cases "currentExercise st")
  case None
  with assms show ?thesis by (simp add: parse_inv_def push_current_def in_order_def)
next
  case (Some e)
  with assms obtain qs0 q where qs: "qs = qs0 @ [q]" and q: "starts q e"
    and io: "in_order qs0 (exercises st)"
    by (auto simp: parse_inv_def)
  show ?thesis
  proof (cases "question e = []")
    case True
    with q have "q = []" by (simp add: starts_def)
    with io qs Some True show ?thesis by (simp add: push_current_def in_order_skip)
  next
    case False
    have "in_order (qs0 @ [q]) (exercises st @ [e\<lparr>options := x\<rparr>])" for x
      using io q by (intro in_order_snoc) simp_all
    moreover have "in_order (qs0 @ [q]) (exercises st @ [e])"
      using io q by (rule in_order_snoc)
    ultimately show ?thesis using Some False qs by (simp add: push_current_def)
  qed
qed

lemma parse_step_inv:
  assumes "parse_inv st qs" and "parse_step st raw = Inr st'"
  shows "parse_inv st' (qs @ (case question_of_line raw of None \<Rightarrow> [] | Some q \<Rightarrow> [q]))"
proof (cases "js_trim raw = []")
  case True
  with assms show ?thesis by (simp add: parse_step_def question_of_line_def)
next
  case ne: False
  show ?thesis
  proof (cases "rx_at False rx_question (js_trim raw)")
    case (Some g)
    then obtain q0 where q0: "capture g 2 = Some q0"
      using rx_at_binds [OF _ binds_patterns(1)] by blast
    with Some ne assms(2) have st': "st' = (push_current st)
        \<lparr>currentExercise := Some \<lparr>question = js_trim q0, options = None, answer = None,
                                    explanation = None\<rparr>\<rparr>"
      by (simp add: parse_step_def)
    from Some ne q0 have ql: "question_of_line raw = Some (js_trim q0)"
      by (simp add: question_of_line_def)
    from push_current_in_order [OF assms(1)] show ?thesis
      unfolding ql st' by (simp add: parse_inv_def starts_def)
  next
    case None
    with ne have ql: "question_of_line raw = None" by (simp add: question_of_line_def)
    show ?thesis
    proof (cases "currentExercise st")
      case cn: None
      with None ne assms show ?thesis by (simp add: parse_step_def ql)
    next
      case (Some e)
      with assms(1) obtain qs0 q where qs: "qs = qs0 @ [q]" and q: "starts q e"
        and io: "in_order qs0 (exercises st)"
        by (auto simp: parse_inv_def)
      from q have q': "starts q (e\<lparr>question := question e @ '' '' @ js_trim raw\<rparr>)"
        by (simp add: starts_def)
      from assms(2) None ne Some
      have "exercises st' = exercises st \<and>
            (\<exists>e'. currentExercise st' = Some e' \<and> starts q e')"
        using q q'
        by (auto simp: parse_step_def Let_def split: option.splits if_splits)
      with qs io show ?thesis by (auto simp: parse_inv_def ql)
    qed
  qed
qed

lemma parse_lines_inv:
  assumes "parse_inv st qs" and "parse_lines st ls = Inr st'"
  shows "parse_inv st' (qs @ List.map_filter question_of_line ls)"
  using assms
proof (induction ls arbitrary: st qs)
  case Nil
  then show ?case by (simp add: map_filter_simps)
next
  case (Cons l ls)
  from Cons.prems(2) obtain st1 where s1: "parse_step st l = Inr st1"
    and rest: "parse_lines st1 ls = Inr st'"
    by (auto split: sum.splits)
  from Cons.IH [OF parse_step_inv [OF Cons.prems(1) s1] rest]
  show ?case by (cases "question_of_line l") (simp_all add: map_filter_simps)
qed

lemma parseTextExercises_in_order:
  "\<exists>es. parseTextExercises text = Inr es \<and> in_order (numbered text) es"
proof -
  obtain st where st: "parse_lines parse_init (js_split text [CHR 0x0A]) = Inr st"
    using parse_lines_total by blast
  have "parse_inv parse_init []" by (simp add: parse_inv_def parse_init_def)
  from parse_lines_inv [OF this st] have "parse_inv st (numbered text)"
    by (simp add: numbered_def)
  from push_current_in_order [OF this] st show ?thesis
    by (simp add: parseTextExercises_def)
qed

lemma two_questions_numbered:
  "numbered (''1. A?'' @ [CHR 0x0A] @ ''more'' @ [CHR 0x0A] @ ''2) B?'') = [''A?'', ''B?'']"
  by code_simp

text \<open>
  C8. The text of the example gives one exercise with the question \<open>What is X?\<close>, the
  options \<open>foo\<close> and \<open>bar\<close> and the answer \<open>a\<close>. For every text, the parser returns a
  list, and the exercises of the list begin with the question texts of the numbered
  lines, in source order: with some of them possibly left out in general, and with all
  of them, one exercise per numbered line, when no question text is empty.
\<close>

theorem parseTextExercises_example_and_order:
  "parseTextExercises (''1. What is X?'' @ [CHR 0x0A] @ ''a) foo'' @ [CHR 0x0A] @ ''b) bar''
                       @ [CHR 0x0A] @ ''Resposta: a'')
     = Inr [\<lparr>question = ''What is X?'', options = Some [''foo'', ''bar''], answer = Some ''a'',
             explanation = None\<rparr>]
   \<and> (\<exists>es. parseTextExercises text = Inr es
          \<and> (\<exists>sub. subseq sub (numbered text) \<and> list_all2 starts sub es)
          \<and> ([] \<notin> set (numbered text) \<longrightarrow> list_all2 starts (numbered text) es))"
proof -
  have ex: "parseTextExercises (''1. What is X?'' @ [CHR 0x0A] @ ''a) foo'' @ [CHR 0x0A] @ ''b) bar''
                       @ [CHR 0x0A] @ ''Resposta: a'')
     = Inr [\<lparr>question = ''What is X?'', options = Some [''foo'', ''bar''], answer = Some ''a'',
             explanation = None\<rparr>]"
    by code_simp
  obtain es where es: "parseTextExercises text = Inr es" and io: "in_order (numbered text) es"
    using parseTextExercises_in_order by blast
  from io obtain sub where sub: "subseq sub (numbered text)" "list_all2 starts sub es"
    "[] \<notin> set (numbered text) \<longrightarrow> sub = numbered text"
    unfolding in_order_def by blast
  from sub have "[] \<notin> set (numbered text) \<longrightarrow> list_all2 starts (numbered text) es"
    by auto
  with ex es sub(1,2) show ?thesis by blast
qed

theorem parseTextExercises_example_and_order_witness:
  "[] \<notin> set (numbered (''1. A?'' @ [CHR 0x0A] @ ''more'' @ [CHR 0x0A] @ ''2) B?''))
   \<and> (\<exists>es. parseTextExercises (''1. A?'' @ [CHR 0x0A] @ ''more'' @ [CHR 0x0A] @ ''2) B?'') = Inr es
          \<and> list_all2 starts (numbered (''1. A?'' @ [CHR 0x0A] @ ''more'' @ [CHR 0x0A] @ ''2) B?'')) es)"
proof -
  have h: "[] \<notin> set (numbered (''1. A?'' @ [CHR 0x0A] @ ''more'' @ [CHR 0x0A] @ ''2) B?''))"
    unfolding two_questions_numbered by simp
  show ?thesis
    using h parseTextExercises_example_and_order
              [of "''1. A?'' @ [CHR 0x0A] @ ''more'' @ [CHR 0x0A] @ ''2) B?''"]
    by blast
qed

lemma parseTextExercises_total: "\<exists>es. parseTextExercises text = Inr es"
proof -
  obtain st where "parse_lines parse_init (js_split text [CHR 0x0A]) = Inr st"
    using parse_lines_total by blast
  then show ?thesis by (simp add: parseTextExercises_def)
qed

lemma no_json_exercises_load:
  assumes "response_ok status" and "no_json_exercises parsed"
  shows "load (Responded status content) parsed = text_strategy content"
proof (cases parsed)
  case None
  with assms(1) show ?thesis by (simp add: load_def)
next
  case (Some v)
  with assms(2) have "\<exists>e. json_strategy v = Inl e"
    by (cases v) (simp_all add: no_json_exercises_def json_strategy_def)
  with Some assms(1) show ?thesis by (auto simp: load_def)
qed

lemma extraction_failed_distinct:
  "extraction_failed \<noteq> FetchRejected" "extraction_failed \<noteq> http_error st"
  by (simp_all add: extraction_failed_def http_error_def)

text \<open>
  C4, as the code has it. After a successful fetch: when \<open>JSON.parse\<close> fails, or the
  parsed value is \<open>null\<close> or holds no exercise (no array, no \<open>exercises\<close> array, no
  member with a question), the text parser decides, and when it finds no exercise the
  error is the one of a failed extraction, which is neither the error of a rejected
  fetch nor the one of a bad HTTP status. A parsed array is taken as the list of
  exercises as it is, also when it is empty, without fallback and without error.
\<close>

theorem fetchExercises_fallback:
  assumes "response_ok status"
  shows "(no_json_exercises parsed \<longrightarrow>
            (\<exists>es. parseTextExercises content = Inr es
               \<and> fetchExercises (Responded status content) parsed =
                   (if es \<noteq> [] then \<lparr>shown_exercises = TextExercises es, loading = False,
                                       error = None\<rparr>
                    else \<lparr>shown_exercises = NoExercises, loading = False,
                          error = Some extraction_failed\<rparr>)))
       \<and> extraction_failed \<noteq> FetchRejected
       \<and> extraction_failed \<noteq> http_error bad
       \<and> error (fetchExercises Rejected parsed) = Some FetchRejected
       \<and> (\<not> response_ok bad \<longrightarrow>
            error (fetchExercises (Responded bad content) parsed) = Some (http_error bad))
       \<and> (parsed = Some (JArr xs) \<longrightarrow>
            fetchExercises (Responded status content) parsed =
              \<lparr>shown_exercises = JsonExercises xs, loading = False, error = None\<rparr>)"
proof -
  obtain es where es: "parseTextExercises content = Inr es"
    using parseTextExercises_total by blast
  have a: "no_json_exercises parsed \<longrightarrow>
            (\<exists>es. parseTextExercises content = Inr es
               \<and> fetchExercises (Responded status content) parsed =
                   (if es \<noteq> [] then \<lparr>shown_exercises = TextExercises es, loading = False,
                                       error = None\<rparr>
                    else \<lparr>shown_exercises = NoExercises, loading = False,
                          error = Some extraction_failed\<rparr>))"
    using es no_json_exercises_load [OF assms, of parsed content]
    by (simp add: fetchExercises_def text_strategy_def)
  have b: "error (fetchExercises Rejected parsed) = Some FetchRejected"
    by (simp add: fetchExercises_def load_def)
  have c: "\<not> response_ok bad \<longrightarrow>
            error (fetchExercises (Responded bad content) parsed) = Some (http_error bad)"
    by (simp add: fetchExercises_def load_def)
  have d: "parsed = Some (JArr xs) \<longrightarrow>
            fetchExercises (Responded status content) parsed =
              \<lparr>shown_exercises = JsonExercises xs, loading = False, error = None\<rparr>"
    using assms by (simp add: fetchExercises_def load_def json_strategy_def)
  from a b c d extraction_failed_distinct show ?thesis by blast
qed

lemma hello_parse: "parseTextExercises ''hello'' = Inr []"
  by code_simp

theorem fetchExercises_fallback_witness:
  "response_ok 200 \<and> no_json_exercises None \<and> \<not> response_ok 404
   \<and> fetchExercises (Responded 200 ''hello'') None =
       \<lparr>shown_exercises = NoExercises, loading = False, error = Some extraction_failed\<rparr>
   \<and> error (fetchExercises (Responded 404 ''hello'') None) = Some (http_error 404)
   \<and> extraction_failed \<noteq> http_error 404"
proof -
  have h: "response_ok 200" by (simp add: response_ok_def)
  have n: "no_json_exercises None" by (simp add: no_json_exercises_def)
  have b: "\<not> response_ok 404" by (simp add: response_ok_def)
  show ?thesis
    using h n b hello_parse fetchExercises_fallback [OF h, of None "''hello''" 404]
    by simp
qed

text \<open>
  The claim as the specification words it fails on the body \<open>[]\<close>: it parses to the empty
  array and the text parser finds no exercise in it either, but the text parser is not
  asked and no error is set; the component shows its notice for an empty list.
\<close>

theorem empty_array_counterexample:
  "response_ok 200
   \<and> json_strategy (JArr []) = Inr []
   \<and> parseTextExercises ''[]'' = Inr []
   \<and> fetchExercises (Responded 200 ''[]'') (Some (JArr [])) =
       \<lparr>shown_exercises = JsonExercises [], loading = False, error = None\<rparr>
   \<and> render (fetchExercises (Responded 200 ''[]'') (Some (JArr []))) = EmptyNotice"
  by code_simp

section \<open>The Response Extractor\<close>

lemma str_rest_exact:
  "str_rest False w s = (if prefix w s then Some (drop (length w) s) else None)"
proof (induction w arbitrary: s)
  case Nil
  show ?case by simp
next
  case (Cons x xs)
  show ?case by (cases s) (simp_all add: Cons.IH canon_def)
qed

lemma rep_rests_head: "\<exists>rest. rep_rests p n t = t # rest"
  by (cases n; cases t) simp_all

lemma concat_rep_rests_skip:
  assumes "list_all p X" and "length X \<le> n"
    and "\<And>k. k < length X \<Longrightarrow> f (drop k (X @ t)) = []"
  shows "concat (map f (rep_rests p n (X @ t))) = concat (map f (rep_rests p (n - length X) t))"
  using assms
proof (induction X arbitrary: n)
  case Nil
  show ?case by simp
next
  case (Cons x X)
  from Cons.prems(2) obtain n' where n: "n = Suc n'" by (cases n) auto
  from Cons.prems(3) [of 0] have f0: "f (x # X @ t) = []" by simp
  have "\<And>k. k < length X \<Longrightarrow> f (drop k (X @ t)) = []"
    using Cons.prems(3) [of "Suc k" for k] by simp
  with Cons.IH [of n'] Cons.prems(1,2) n
  have "concat (map f (rep_rests p n' (X @ t))) = concat (map f (rep_rests p (n' - length X) t))"
    by simp
  with Cons.prems(1) f0 n show ?case by simp
qed

lemma includes_overlap:
  assumes "i < length a" and "prefix w (drop i (a @ b))"
  shows "js_includes (a @ take (length w - 1) b) w"
proof -
  define d where "d = drop i a"
  from assms(1) have d: "d \<noteq> []" by (simp add: d_def)
  from assms have "prefix w (d @ b)" by (simp add: d_def)
  then have w: "w = take (length w) (d @ b)" by (metis append_eq_conv_conj prefix_def)
  have "length w - length d \<le> length w - 1" using d by (cases d) auto
  then have "take (length w - length d) b = take (length w - length d) (take (length w - 1) b)"
    by (simp add: min_def)
  with w have "w = take (length w) (d @ take (length w - 1) b)" by simp
  then obtain r where "d @ take (length w - 1) b = w @ r"
    by (metis append_take_drop_id)
  then have "a @ take (length w - 1) b = take i a @ w @ r"
    by (metis append.assoc append_take_drop_id d_def)
  then show ?thesis unfolding js_includes_iff by blast
qed

lemma rx_search_hit: "rx_at ci r s = Some g \<Longrightarrow> rx_search ci r s = Some g"
  by (cases s) simp_all

lemma rx_search_skip:
  assumes "\<And>i. i < length pre \<Longrightarrow> rx_at ci r (drop i (pre @ rest)) = None"
  shows "rx_search ci r (pre @ rest) = rx_search ci r rest"
  using assms
proof (induction pre)
  case Nil
  show ?case by simp
next
  case (Cons c pre)
  from Cons.prems [of 0] have "rx_at ci r (c # pre @ rest) = None" by simp
  moreover have "rx_search ci r (pre @ rest) = rx_search ci r rest"
    using Cons.prems [of "Suc i" for i] by (intro Cons.IH) simp
  ultimately show ?case by simp
qed

lemma rx_comment_no_opening:
  assumes "\<not> prefix ''<!-- file_path: '' s"
  shows "rx_at False rx_comment s = None"
  using assms by (simp add: rx_at_def rx_comment_def str_rest_exact)

lemma rx_comment_at_marker:
  assumes nolt: "list_all (\<lambda>c. \<not> is_line_terminator c) X"
    and first: "\<And>k. k < length X \<Longrightarrow> \<not> prefix '' -->'' (drop k (X @ '' -->'' @ post))"
  shows "rx_at False rx_comment (''<!-- file_path: '' @ X @ '' -->'' @ post) = Some [(1, X)]"
proof -
  define s where "s = X @ '' -->'' @ post"
  from nolt have nolt': "list_all (atom_match False AAny) X" by (simp add: list_all_iff)
  define f :: "string \<Rightarrow> (string \<times> captures) list" where
    "f = (\<lambda>r. rx_match False (Str '' -->'') (r, [(1, take (length s - length r) s)]))"
  have skip: "f (drop k (X @ '' -->'' @ post)) = []" if "k < length X" for k
    using first [OF that] by (simp add: f_def str_rest_exact)
  have "rx_match False (Seq (Grp 1 (Rep False AAny 0 None)) (Str '' -->'')) (s, [])
        = concat (map f (rep_rests (atom_match False AAny) (length s) s))"
    by (simp add: f_def comp_def)
  also have "\<dots> = concat (map f (rep_rests (atom_match False AAny)
                                (length s - length X) ('' -->'' @ post)))"
    unfolding s_def using nolt' skip by (intro concat_rep_rests_skip) simp_all
  finally have m: "rx_match False (Seq (Grp 1 (Rep False AAny 0 None)) (Str '' -->'')) (s, [])
        = concat (map f (rep_rests (atom_match False AAny)
                                (length s - length X) ('' -->'' @ post)))" .
  obtain rest where "rep_rests (atom_match False AAny) (length s - length X) ('' -->'' @ post)
                     = ('' -->'' @ post) # rest"
    using rep_rests_head by blast
  with m have "rx_match False (Seq (Grp 1 (Rep False AAny 0 None)) (Str '' -->'')) (s, [])
        = f ('' -->'' @ post) @ concat (map f rest)" by simp
  moreover have "f ('' -->'' @ post) = [(post, [(1, X)])]"
    by (simp add: f_def str_rest_exact s_def)
  ultimately have "rx_match False (Seq (Grp 1 (Rep False AAny 0 None)) (Str '' -->'')) (s, [])
        = (post, [(1, X)]) # concat (map f rest)" by simp
  then show ?thesis
    by (simp add: rx_at_def rx_comment_def str_rest_exact s_def)
qed

lemma default_lookups:
  "map_of defaultFiles (toLowerCase ''video'') = Some ''videos/Dica do professor.mp4''"
  "map_of defaultFiles (toLowerCase ''audio'') = Some ''audio/Dica do professor.mp3''"
  "map_of defaultFiles (toLowerCase ''image'') = Some ''images/Infografico-1.jpg''"
  "map_of defaultFiles (toLowerCase ''text'')
     = Some (''text/Apresenta'' @ [CHR 0xE7, CHR 0xE3] @ ''o.txt'')"
  "map_of defaultFiles (toLowerCase ''exercises'')
     = Some (''text/Exerc'' @ [CHR 0xED] @ ''cios.txt'')"
  "map_of defaultFiles (toLowerCase ''mixed'') = None"
  unfolding defaultFiles_def toLowerCase_def Exercicios_def by code_simp+

text \<open>
  C1, as the code has it. When the first marker opening \<open><!-- file_path: \<close> of the
  text is followed by a path \<open>X\<close> that has no line terminator in it and ends at the first
  \<open> -->\<close>: if \<open>X\<close> is not empty, \<open>extractFilePath\<close> returns \<open>X\<close>, whatever the text before
  and after the marker and the fields of the response are (no labelled line and no media
  pattern is looked at); if \<open>X\<close> is empty, the marker is passed over and the result is
  that of the rules of lower priority on the same text.
\<close>

theorem comment_marker_priority:
  assumes first_opening: "\<not> js_includes (pre @ ''<!-- file_path:'') ''<!-- file_path: ''"
    and one_line: "list_all (\<lambda>c. \<not> is_line_terminator c) X"
    and closing: "\<not> js_includes (X @ '' --'') '' -->''"
  shows "extractFilePath data (pre @ ''<!-- file_path: '' @ X @ '' -->'' @ post) =
           (if X \<noteq> [] then Some X
            else lower_rules data (pre @ ''<!-- file_path: '' @ X @ '' -->'' @ post))"
proof -
  let ?rest = "''<!-- file_path: '' @ X @ '' -->'' @ post"
  have before: "rx_at False rx_comment (drop i (pre @ ?rest)) = None" if "i < length pre" for i
  proof (rule rx_comment_no_opening, rule notI)
    assume "prefix ''<!-- file_path: '' (drop i (pre @ ?rest))"
    from includes_overlap [OF that this] first_opening show False by simp
  qed
  have inside: "\<not> prefix '' -->'' (drop k (X @ '' -->'' @ post))" if "k < length X" for k
  proof
    assume "prefix '' -->'' (drop k (X @ '' -->'' @ post))"
    from includes_overlap [OF that this] closing show False by simp
  qed
  have "rx_search False rx_comment (pre @ ?rest) = rx_search False rx_comment ?rest"
    using before by (rule rx_search_skip)
  also have "\<dots> = Some [(1, X)]"
    using one_line inside by (intro rx_search_hit rx_comment_at_marker)
  finally have hit: "found (rx_search False rx_comment (pre @ ?rest))
                = (if X \<noteq> [] then Some X else None)"
    by (simp add: found_def capture_def)
  define whole where "whole = pre @ ?rest"
  from hit have "extractFilePath data whole = (if X \<noteq> [] then Some X else lower_rules data whole)"
    unfolding whole_def [symmetric] by (simp add: extractFilePath_def lower_rules_def)
  then show ?thesis unfolding whole_def .
qed

lemma empty_marker_facts:
  "\<not> js_includes (''Veja: '' @ ''<!-- file_path:'') ''<!-- file_path: ''"
  "list_all (\<lambda>c. \<not> is_line_terminator c) []"
  "\<not> js_includes ([] @ '' --'') '' -->''"
  by code_simp+

lemma empty_marker_lower:
  "lower_rules \<lparr>response = [], user_id = ''u1'', file_path = None, primary_media_type = None\<rparr>
     (''Veja: '' @ ''<!-- file_path: '' @ [] @ '' -->'' @ '' Arquivo: audio/Aula.mp3'')
   = Some ''audio/Aula.mp3''"
  by code_simp

lemma marker_example_facts:
  "\<not> js_includes (''Arquivo: audio/Aula.mp3 '' @ ''<!-- file_path:'') ''<!-- file_path: ''"
  "list_all (\<lambda>c. \<not> is_line_terminator c) ''videos/x.mp4''"
  "\<not> js_includes (''videos/x.mp4'' @ '' --'') '' -->''"
  unfolding is_line_terminator_def by code_simp+

theorem comment_marker_priority_witness:
  "\<not> js_includes (''Arquivo: audio/Aula.mp3 '' @ ''<!-- file_path:'') ''<!-- file_path: ''
   \<and> list_all (\<lambda>c. \<not> is_line_terminator c) ''videos/x.mp4''
   \<and> \<not> js_includes (''videos/x.mp4'' @ '' --'') '' -->''
   \<and> extractFilePath \<lparr>response = [], user_id = ''u1'', file_path = Some ''text/a.txt'',
                        primary_media_type = Some MAudio\<rparr>
        (''Arquivo: audio/Aula.mp3 '' @ ''<!-- file_path: '' @ ''videos/x.mp4'' @ '' -->''
         @ '' (Video: videos/outro.mp4)'')
       = Some ''videos/x.mp4''
   \<and> \<not> js_includes (''Veja: '' @ ''<!-- file_path:'') ''<!-- file_path: ''
   \<and> list_all (\<lambda>c. \<not> is_line_terminator c) []
   \<and> \<not> js_includes ([] @ '' --'') '' -->''
   \<and> extractFilePath \<lparr>response = [], user_id = ''u1'', file_path = None,
                        primary_media_type = None\<rparr>
        (''Veja: '' @ ''<!-- file_path: '' @ [] @ '' -->'' @ '' Arquivo: audio/Aula.mp3'')
       = Some ''audio/Aula.mp3''"
  using marker_example_facts empty_marker_facts empty_marker_lower
    comment_marker_priority [OF marker_example_facts,
      of "\<lparr>response = [], user_id = ''u1'', file_path = Some ''text/a.txt'',
           primary_media_type = Some MAudio\<rparr>" "'' (Video: videos/outro.mp4)''"]
    comment_marker_priority [OF empty_marker_facts,
      of "\<lparr>response = [], user_id = ''u1'', file_path = None, primary_media_type = None\<rparr>"
         "'' Arquivo: audio/Aula.mp3''"]
  by simp

text \<open>
  The claim as the specification words it fails in two ways: a marker with an empty path
  is passed over, and the labelled line wins; a marker whose path runs over a line break
  is not found at all.
\<close>

theorem comment_marker_counterexample:
  "extractFilePath \<lparr>response = [], user_id = ''u1'', file_path = None, primary_media_type = None\<rparr>
     (''<!-- file_path: '' @ [] @ '' -->'' @ '' Arquivo: audio/Aula.mp3'') = Some ''audio/Aula.mp3''
   \<and> extractFilePath \<lparr>response = [], user_id = ''u1'', file_path = None, primary_media_type = None\<rparr>
     (''<!-- file_path: '' @ (''videos/a'' @ [CHR 0x0A] @ ''b.mp4'') @ '' -->'') = None"
  by code_simp

text \<open>
  C3, as the code has it. When no comment marker, no labelled line and no media pattern
  gives a path and the response has no \<open>file_path\<close>: a declared primary media type other
  than \<open>mixed\<close> gives the default file of that type; \<open>mixed\<close>, which has no default file,
  and no declared type give no path.
\<close>

theorem default_file_fallback:
  assumes "found (rx_search False rx_comment text) = None"
    and "found (rx_search True rx_file_line text) = None"
    and "first_pattern patterns text = None"
    and "file_path data = None"
  shows "extractFilePath data text =
           (case primary_media_type data of
              None \<Rightarrow> None
            | Some MVideo \<Rightarrow> Some ''videos/Dica do professor.mp4''
            | Some MAudio \<Rightarrow> Some ''audio/Dica do professor.mp3''
            | Some MImage \<Rightarrow> Some ''images/Infografico-1.jpg''
            | Some MText \<Rightarrow> Some (''text/Apresenta'' @ [CHR 0xE7, CHR 0xE3] @ ''o.txt'')
            | Some MExercises \<Rightarrow> Some (''text/Exerc'' @ [CHR 0xED] @ ''cios.txt'')
            | Some MMixed \<Rightarrow> None)"
proof -
  from assms have "extractFilePath data text = fallbackPath data"
    by (simp add: extractFilePath_def)
  also have "\<dots> = (case primary_media_type data of
              None \<Rightarrow> None
            | Some MVideo \<Rightarrow> Some ''videos/Dica do professor.mp4''
            | Some MAudio \<Rightarrow> Some ''audio/Dica do professor.mp3''
            | Some MImage \<Rightarrow> Some ''images/Infografico-1.jpg''
            | Some MText \<Rightarrow> Some (''text/Apresenta'' @ [CHR 0xE7, CHR 0xE3] @ ''o.txt'')
            | Some MExercises \<Rightarrow> Some (''text/Exerc'' @ [CHR 0xED] @ ''cios.txt'')
            | Some MMixed \<Rightarrow> None)"
  proof (cases "primary_media_type data")
    case None
    with assms(4) show ?thesis by (simp add: fallbackPath_def)
  next
    case (Some t)
    with assms(4) show ?thesis
      by (cases t) (simp_all add: fallbackPath_def default_lookups)
  qed
  finally show ?thesis .
qed

lemma hello_matches_nothing:
  "found (rx_search False rx_comment ''hello'') = None"
  "found (rx_search True rx_file_line ''hello'') = None"
  "first_pattern patterns ''hello'' = None"
  by code_simp+

theorem default_file_fallback_witness:
  "found (rx_search False rx_comment ''hello'') = None
   \<and> found (rx_search True rx_file_line ''hello'') = None
   \<and> first_pattern patterns ''hello'' = None
   \<and> extractFilePath \<lparr>response = ''hello'', user_id = ''u1'', file_path = None,
                        primary_media_type = Some MImage\<rparr> ''hello''
       = Some ''images/Infografico-1.jpg''"
  using hello_matches_nothing
    default_file_fallback [OF hello_matches_nothing,
      of "\<lparr>response = ''hello'', user_id = ''u1'', file_path = None,
           primary_media_type = Some MImage\<rparr>"]
  by simp

text \<open>
  The claim as the specification words it fails for the declared type \<open>mixed\<close>: nothing
  in the text gives a path, the response has no \<open>file_path\<close>, and the result is no path.
\<close>

theorem mixed_default_counterexample:
  "found (rx_search False rx_comment ''hello'') = None
   \<and> found (rx_search True rx_file_line ''hello'') = None
   \<and> first_pattern patterns ''hello'' = None
   \<and> map_of defaultFiles ''mixed'' = None
   \<and> extractFilePath \<lparr>response = ''hello'', user_id = ''u1'', file_path = None,
                        primary_media_type = Some MMixed\<rparr> ''hello'' = None"
proof -
  have "map_of defaultFiles ''mixed'' = None"
    unfolding defaultFiles_def Exercicios_def by code_simp
  moreover have "toLowerCase ''mixed'' = ''mixed''"
    unfolding toLowerCase_def by code_simp
  ultimately show ?thesis
    using hello_matches_nothing by (simp add: extractFilePath_def fallbackPath_def)
qed

section \<open>The Interactive Assessment Flow\<close>

lemma mount_with_user:
  assumes "initialUserId props = Some u" and "u \<noteq> []"
  shows "mount props = fresh u"
  using assms by (simp add: mount_def start_effect_def fresh_def)

lemma type_user:
  assumes "initialUserId props = None" and "u \<noteq> []"
  shows "step props api (mount props) (TypeUserId u) = fresh u"
  using assms by (simp add: mount_def start_effect_def fresh_def step_def)



lemma updateUserLevel_keeps [simp]:
  "assessmentComplete (updateUserLevel qs st) = assessmentComplete st"
  "completions (updateUserLevel qs st) = completions st"
  by (simp_all add: updateUserLevel_def)



lemma generateInitialQuestions_keeps [simp]:
  "assessmentComplete (generateInitialQuestions st) = assessmentComplete st"
  "completions (generateInitialQuestions st) = completions st"
  by (simp_all add: generateInitialQuestions_def)



lemma later_questions_eq:
  "later_questions = [(6, text6, MultipleChoice), (7, text7, OpenEnded), (8, text8, OpenEnded)]"
  unfolding text6_def text7_def text8_def by code_simp

lemma early_questions_eq:
  "map (\<lambda>q. (q_id q, q_type q)) (take (length topics) (generatedQuestions @ knowledgeQuestions))
   = [(1, MultipleChoice), (2, MultipleChoice), (3, MultipleChoice), (4, MultipleChoice),
      (5, MultipleChoice)]"
  by code_simp

lemma length_topics: "length topics = 5"
  by (simp add: topics_def)

lemma text_facts:
  "\<not> js_includes text6 (''n'' @ [CHR 0xED] @ ''vel de conhecimento em'')"
  "\<not> js_includes text7 (''n'' @ [CHR 0xED] @ ''vel de conhecimento em'')"
  "\<not> js_includes text8 (''n'' @ [CHR 0xED] @ ''vel de conhecimento em'')"
  "\<not> js_includes text8 (''formato voc'' @ [CHR 0xEA] @ '' prefere'')"
  "gap_topic text7 \<in> set topics"
  "gap_topic text8 \<in> set topics"
  unfolding text6_def text7_def text8_def by code_simp+

lemmas text_facts' = text_facts [simplified]

lemma settled_fresh: "settled (run props api (fresh u) beginner_answers)"
  unfolding fresh_def by code_simp


lemma analyze_answers_known:
  assumes "list_all (\<lambda>q. gap_topic (q_text q) \<in> set (knowledgeGaps cl)) qs"
  shows "snd (analyze_answers api cl qs st) = st"
  using assms by (induction qs arbitrary: st) (auto split: option.splits)

lemma settled_cases:
  assumes "settled st"
  obtains q1 q2 q3 q4 q5 q6 q7 q8 cq where
    "questions st = [q1, q2, q3, q4, q5, q6, q7, q8]"
    "q_id q1 = 1" "q_id q2 = 2" "q_id q3 = 3" "q_id q4 = 4" "q_id q5 = 5"
    "q_type q1 = MultipleChoice" "q_type q2 = MultipleChoice" "q_type q3 = MultipleChoice"
    "q_type q4 = MultipleChoice" "q_type q5 = MultipleChoice"
    "q_id q6 = 6" "q_text q6 = text6" "q_type q6 = MultipleChoice"
    "q_id q7 = 7" "q_text q7 = text7" "q_type q7 = OpenEnded"
    "q_id q8 = 8" "q_text q8 = text8" "q_type q8 = OpenEnded"
    "currentQuestion st = Some cq"
    "(q_id cq, q_text cq, q_type cq)
       \<in> {(6, text6, MultipleChoice), (7, text7, OpenEnded), (8, text8, OpenEnded)}"
proof -
  have early: "map (\<lambda>q. (q_id q, q_type q)) (take 5 (questions st))
      = [(1, MultipleChoice), (2, MultipleChoice), (3, MultipleChoice), (4, MultipleChoice),
         (5, MultipleChoice)]"
    and late: "map (\<lambda>q. (q_id q, q_text q, q_type q)) (drop 5 (questions st))
      = [(6, text6, MultipleChoice), (7, text7, OpenEnded), (8, text8, OpenEnded)]"
    and cur: "case currentQuestion st of None \<Rightarrow> False
              | Some cq \<Rightarrow> (q_id cq, q_text cq, q_type cq)
                   \<in> set [(6, text6, MultipleChoice), (7, text7, OpenEnded), (8, text8, OpenEnded)]"
    using assms [unfolded settled_def early_questions_eq later_questions_eq]
    unfolding length_topics by simp_all
  from early obtain q1 q2 q3 q4 q5 where e: "take 5 (questions st) = [q1, q2, q3, q4, q5]"
    "q_id q1 = 1" "q_id q2 = 2" "q_id q3 = 3" "q_id q4 = 4" "q_id q5 = 5"
    "q_type q1 = MultipleChoice" "q_type q2 = MultipleChoice" "q_type q3 = MultipleChoice"
    "q_type q4 = MultipleChoice" "q_type q5 = MultipleChoice"
    by (auto simp: map_eq_Cons_conv)
  from late obtain q6 q7 q8 where l: "drop 5 (questions st) = [q6, q7, q8]"
    "q_id q6 = 6" "q_text q6 = text6" "q_type q6 = MultipleChoice"
    "q_id q7 = 7" "q_text q7 = text7" "q_type q7 = OpenEnded"
    "q_id q8 = 8" "q_text q8 = text8" "q_type q8 = OpenEnded"
    by (auto simp: map_eq_Cons_conv)
  have "questions st = take 5 (questions st) @ drop 5 (questions st)" by simp
  with e(1) l(1) have qs: "questions st = [q1, q2, q3, q4, q5, q6, q7, q8]" by simp
  from cur obtain cq where "currentQuestion st = Some cq"
    "(q_id cq, q_text cq, q_type cq)
       \<in> {(6, text6, MultipleChoice), (7, text7, OpenEnded), (8, text8, OpenEnded)}"
    by (auto split: option.splits)
  with qs e l that show thesis by blast
qed


lemma settledI:
  assumes "knowledgeGaps st = topics" and "0 < currentStep st"
    and "list_all (\<lambda>r. r_knowledgeGaps r = topics) (completions st)"
    and "map (\<lambda>q. (q_id q, q_type q)) (take 5 (questions st))
      = [(1, MultipleChoice), (2, MultipleChoice), (3, MultipleChoice), (4, MultipleChoice),
         (5, MultipleChoice)]"
    and "map (\<lambda>q. (q_id q, q_text q, q_type q)) (drop 5 (questions st))
      = [(6, text6, MultipleChoice), (7, text7, OpenEnded), (8, text8, OpenEnded)]"
    and "currentQuestion st = Some cq"
    and "(q_id cq, q_text cq, q_type cq)
       \<in> {(6, text6, MultipleChoice), (7, text7, OpenEnded), (8, text8, OpenEnded)}"
  shows "settled st"
  unfolding settled_def early_questions_eq later_questions_eq
  unfolding length_topics
  using assms by auto

lemma completeAssessment_settled:
  assumes gaps: "knowledgeGaps cl = topics"
    and known: "list_all (\<lambda>q. gap_topic (q_text q) \<in> set topics) (openEndedQuestions fq)"
  shows "completeAssessment props api cl fq st =
           (case fst (analyze_answers api cl (openEndedQuestions fq) (st\<lparr>isLoading := True\<rparr>)) of
              False \<Rightarrow> st\<lparr>isLoading := False,
                          a_error := Some ''Ocorreu um erro ao processar suas respostas. Tente novamente.''\<rparr>
            | True \<Rightarrow>
                if onComplete_given props
                then st\<lparr>isLoading := False, assessmentComplete := True,
                        completions := completions st
                          @ [\<lparr>r_userId = userId cl, r_knowledgeGaps = topics,
                              r_preferredFormat = preferredFormat cl, r_level = userLevel cl\<rparr>]\<rparr>
                else st\<lparr>isLoading := False, assessmentComplete := True\<rparr>)"
proof -
  from known gaps have "list_all (\<lambda>q. gap_topic (q_text q) \<in> set (knowledgeGaps cl)) (openEndedQuestions fq)"
    by simp
  from analyze_answers_known [OF this, of api "st\<lparr>isLoading := True\<rparr>"]
  obtain ok where "analyze_answers api cl (openEndedQuestions fq) (st\<lparr>isLoading := True\<rparr>)
                   = (ok, st\<lparr>isLoading := True\<rparr>)"
    by (cases "analyze_answers api cl (openEndedQuestions fq) (st\<lparr>isLoading := True\<rparr>)") simp
  then show ?thesis using gaps by (cases ok) (simp_all add: completeAssessment_def)
qed

lemma handleAnswer_settled:
  assumes "settled st"
  shows "settled (handleAnswer props api st a)"
proof -
  from assms have gaps: "knowledgeGaps st = topics" and stp: "0 < currentStep st"
    and pays: "list_all (\<lambda>r. r_knowledgeGaps r = topics) (completions st)"
    by (simp_all add: settled_def)
  from assms obtain q1 q2 q3 q4 q5 q6 q7 q8 cq where
    qs: "questions st = [q1, q2, q3, q4, q5, q6, q7, q8]"
    and f: "q_id q1 = 1" "q_id q2 = 2" "q_id q3 = 3" "q_id q4 = 4" "q_id q5 = 5"
    "q_type q1 = MultipleChoice" "q_type q2 = MultipleChoice" "q_type q3 = MultipleChoice"
    "q_type q4 = MultipleChoice" "q_type q5 = MultipleChoice"
    "q_id q6 = 6" "q_text q6 = text6" "q_type q6 = MultipleChoice"
    "q_id q7 = 7" "q_text q7 = text7" "q_type q7 = OpenEnded"
    "q_id q8 = 8" "q_text q8 = text8" "q_type q8 = OpenEnded"
    and cq: "currentQuestion st = Some cq"
    and sh: "(q_id cq, q_text cq, q_type cq)
       \<in> {(6, text6, MultipleChoice), (7, text7, OpenEnded), (8, text8, OpenEnded)}"
    by (rule settled_cases)
  from sh consider (six) "q_id cq = 6" "q_text cq = text6" "q_type cq = MultipleChoice"
    | (seven) "q_id cq = 7" "q_text cq = text7" "q_type cq = OpenEnded"
    | (eight) "q_id cq = 8" "q_text cq = text8" "q_type cq = OpenEnded"
    by auto
  then show ?thesis
  proof cases
    case six
    show ?thesis
      by (rule settledI [where cq = q7])
         (simp_all add: handleAnswer_def Let_def advance_def cq qs f six text_facts' js_index_def
            gaps stp pays)
  next
    case seven
    show ?thesis
      by (rule settledI [where cq = q8])
         (simp_all add: handleAnswer_def Let_def advance_def cq qs f seven text_facts' js_index_def
            gaps stp pays)
  next
    case eight
    let ?uq = "[q1, q2, q3, q4, q5, q6, q7, cq\<lparr>userResponse := Some a\<rparr>]"
    have known: "list_all (\<lambda>q. gap_topic (q_text q) \<in> set topics) (openEndedQuestions ?uq)"
      by (simp add: openEndedQuestions_def f eight text_facts')
    have ha: "handleAnswer props api st a
              = completeAssessment props api st ?uq (st\<lparr>questions := ?uq\<rparr>)"
      by (simp add: handleAnswer_def Let_def advance_def cq qs f eight text_facts')
    show ?thesis
      unfolding ha completeAssessment_settled [OF gaps known]
      by (rule settledI [where cq = cq])
         (simp_all add: cq f eight gaps stp pays split: bool.splits)
  qed
qed

lemma step_settled:
  assumes "settled st"
  shows "settled (step props api st ev)"
proof (cases "enabled st ev")
  case False
  with assms show ?thesis by (simp add: step_def)
next
  case en: True
  from assms have stp: "0 < currentStep st" by (simp add: settled_def)
  show ?thesis
  proof (cases ev)
    case (TypeUserId u)
    with en stp show ?thesis by simp
  next
    case ClickStart
    with en stp show ?thesis by simp
  next
    case (Choose v)
    with en assms show ?thesis by (simp add: step_def settled_def)
  next
    case ClickNext
    with en handleAnswer_settled [OF assms] show ?thesis by (simp add: step_def)
  next
    case ClickContinue
    with en assms show ?thesis by (simp add: step_def settled_def)
  qed
qed

lemma run_settled: "settled st \<Longrightarrow> settled (run props api st evs)"
  by (induction evs arbitrary: st) (simp_all add: step_settled)

lemma run_append: "run props api st (xs @ ys) = run props api (run props api st xs) ys"
  by (induction xs arbitrary: st) simp_all

text \<open>
  C6. Once the questions are generated for a user (at mount when the user id is given,
  or when it is typed), answering the five questions on the topics with \<open>iniciante\<close>
  gives the list of knowledge gaps HTML, CSS, JavaScript, Acessibilidade Web,
  Responsividade, which is the list \<open>topics\<close> in its order; and whatever the user does
  after that and whatever the backend answers, the list stays that one and every call
  of \<open>onComplete\<close> carries it.
\<close>

theorem beginner_knowledgeGaps:
  assumes "u \<noteq> []"
  shows "topics = [''HTML'', ''CSS'', ''JavaScript'', ''Acessibilidade Web'', ''Responsividade'']
       \<and> (initialUserId props = Some u \<longrightarrow>
            knowledgeGaps (run props api (mount props) (beginner_answers @ evs)) = topics
            \<and> list_all (\<lambda>r. r_knowledgeGaps r = topics)
                 (completions (run props api (mount props) (beginner_answers @ evs))))
       \<and> (initialUserId props = None \<longrightarrow>
            knowledgeGaps (run props api (mount props) (TypeUserId u # beginner_answers @ evs))
              = topics
            \<and> list_all (\<lambda>r. r_knowledgeGaps r = topics)
                 (completions (run props api (mount props)
                                 (TypeUserId u # beginner_answers @ evs))))"
proof -
  have "settled (run props api (fresh u) (beginner_answers @ evs))"
    unfolding run_append by (intro run_settled settled_fresh)
  then have fin: "knowledgeGaps (run props api (fresh u) (beginner_answers @ evs)) = topics
      \<and> list_all (\<lambda>r. r_knowledgeGaps r = topics)
           (completions (run props api (fresh u) (beginner_answers @ evs)))"
    by (simp add: settled_def)
  have given: "mount props = fresh u" if "initialUserId props = Some u"
    using that assms by (rule mount_with_user)
  have typed: "run props api (mount props) (TypeUserId u # beginner_answers @ evs)
               = run props api (fresh u) (beginner_answers @ evs)"
    if "initialUserId props = None"
    using type_user [OF that assms, of api] by simp
  from fin given typed show ?thesis by (auto simp: topics_def)
qed

theorem beginner_knowledgeGaps_witness:
  "''u1'' \<noteq> [] \<and> initialUserId sample_props = Some ''u1''
   \<and> knowledgeGaps (run sample_props approving (mount sample_props)
                      (beginner_answers @ [Choose ''imagem'', ClickNext]))
       = [''HTML'', ''CSS'', ''JavaScript'', ''Acessibilidade Web'', ''Responsividade'']"
proof -
  have h: "''u1'' \<noteq> []" by simp
  show ?thesis
    using beginner_knowledgeGaps [OF h, of sample_props approving "[Choose ''imagem'', ClickNext]"]
    by (simp add: sample_props_def)
qed








end
